theory Spec2Isabelle
  imports Main "HOL-Library.Word"
begin

section \<open>The machine the shader helper runs on\<close>

text \<open>
  \<^verbatim>\<open>depend/shader_s.h\<close> declares one class, \<^verbatim>\<open>Shader\<close>. Its constructor reads two
  files, prints to \<^verbatim>\<open>std::cout\<close> and calls the OpenGL driver; its methods call the driver
  only. The state these calls act on is made explicit: the files on disk, the text written
  to standard output, and the driver's objects.
\<close>

subsection \<open>Driver objects\<close>

datatype stage = GL_VERTEX_SHADER | GL_FRAGMENT_SHADER

text \<open>
  Modelled from the spec: the objects the driver keeps are not declared in this repository.
  A shader object has a stage, a source, a compile status, a log and a deletion mark; a
  program object has the shaders attached to it, a link status, a log and its active
  uniforms with their values; a handle stands for one of them or for a released object.
  A uniform holds the 32 bits last written to it. \<^verbatim>\<open>glUniform1i\<close> writes a \<^verbatim>\<open>GLint\<close>,
  \<^verbatim>\<open>glUniform1f\<close> a \<^verbatim>\<open>GLfloat\<close>; the helper does no arithmetic on either, so a float is
  carried as its bit pattern.
\<close>

datatype uval = UInt "32 word" | UFloat "32 word"

record shader_obj =
  sh_type :: stage
  sh_source :: string
  sh_compile_status :: bool
  sh_info_log :: string
  sh_delete_status :: bool

record program_obj =
  pr_attached :: "nat list"
  pr_link_status :: bool
  pr_info_log :: string
  pr_uniforms :: "(string \<times> uval) list"

datatype gl_object = ShaderObj shader_obj | ProgramObj program_obj | Freed

text \<open>Every driver entry point the helper calls, with the arguments it passes.\<close>

datatype gl_call =
    CreateShader stage
  | ShaderSource nat string
  | CompileShader nat
  | GetShaderiv nat
  | GetShaderInfoLog nat nat
  | CreateProgram
  | AttachShader nat nat
  | LinkProgram nat
  | GetProgramiv nat
  | GetProgramInfoLog nat nat
  | DeleteShader nat
  | UseProgram nat
  | GetUniformLocation nat string
  | Uniform1i int "32 word"
  | Uniform1f int "32 word"

text \<open>
  The shading-language compiler and linker of the driver are not part of the repository and
  nothing in the helper depends on how they decide: they are a parameter. \<open>compile\<close> gives
  the compile status and the info log of a source for a stage; \<open>link\<close> gives, for the shader
  objects attached to a program, the link status, the info log and the names of the active
  uniforms.
\<close>

record driver =
  compile :: "stage \<Rightarrow> string \<Rightarrow> bool \<times> string"
  link :: "shader_obj list \<Rightarrow> bool \<times> string \<times> string list"

text \<open>
  What is found at a path: a file with its bytes, or something that opens but gives no
  byte when it is read (a directory, for one).
\<close>

datatype disk_entry = Regular string | Unreadable

text \<open>
  The state: \<open>files\<close> maps a path to what is found there (\<open>None\<close> when it cannot be
  opened), \<open>opened\<close> lists the paths \<^verbatim>\<open>ifstream::open\<close> was called with, \<open>out\<close> holds
  the text of every output statement executed on \<^verbatim>\<open>std::cout\<close> (one element per
  statement, up to and including its \<^verbatim>\<open>std::endl\<close>), \<open>objects\<close> are the driver's objects
  (the object named \<open>n > 0\<close> is \<open>objects ! (n - 1)\<close>; the name 0 is no object),
  \<open>current_program\<close> is the program bound by \<^verbatim>\<open>glUseProgram\<close>, and \<open>history\<close> lists the
  driver calls made so far, in order.
\<close>

record state =
  files :: "string \<rightharpoonup> disk_entry"
  opened :: "string list"
  out :: "string list"
  objects :: "gl_object list"
  current_program :: nat
  history :: "gl_call list"

subsection \<open>The driver calls\<close>

text \<open>
  The OpenGL entry points (reached through \<^verbatim>\<open>glad/glad.h\<close>) are not code of this
  repository. Each definition below gives the effect the specification ascribes to the
  call. The driver's error flag is left out: the helper never queries it.
\<close>

text \<open>
  Modelled from the spec: the driver is not code of this repository. Every call of a driver
  entry point is recorded, so that what the helper asked of the driver can be stated.
\<close>

definition called :: "gl_call \<Rightarrow> state \<Rightarrow> state" where
  "called c s = s\<lparr>history := history s @ [c]\<rparr>"

text \<open>
  Modelled from the spec: the driver's objects are identified by opaque handles. Here the
  handle \<open>n > 0\<close> stands for the \<open>n\<close>-th object the driver created; 0 and handles not
  yet issued stand for no object.
\<close>

definition lookup :: "state \<Rightarrow> nat \<Rightarrow> gl_object option" where
  "lookup s n = (if 0 < n \<and> n \<le> length (objects s) then Some (objects s ! (n - 1)) else None)"

text \<open>
  Modelled from the spec: replacing the object a handle stands for (the driver call that
  does it has checked that the handle is one).
\<close>

definition put :: "nat \<Rightarrow> gl_object \<Rightarrow> state \<Rightarrow> state" where
  "put n ob s = s\<lparr>objects := (objects s)[n - 1 := ob]\<rparr>"

text \<open>
  Modelled from the spec: a shader object as the driver creates it: no source, not compiled,
  not marked for deletion.
\<close>

definition new_shader :: "stage \<Rightarrow> shader_obj" where
  "new_shader t = \<lparr>sh_type = t, sh_source = [], sh_compile_status = False,
     sh_info_log = [], sh_delete_status = False\<rparr>"

text \<open>
  Modelled from the spec: a program object as the driver creates it: nothing attached, not
  linked, no uniforms.
\<close>

definition new_program :: program_obj where
  "new_program = \<lparr>pr_attached = [], pr_link_status = False, pr_info_log = [],
     pr_uniforms = []\<rparr>"

text \<open>
  Modelled from the spec: \<^verbatim>\<open>glCreateShader\<close> (driver) allocates a shader object of the
  given stage and returns its handle, one that was not in use.
\<close>

definition glCreateShader :: "stage \<Rightarrow> state \<Rightarrow> nat \<times> state" where
  "glCreateShader t s =
     (Suc (length (objects s)),
      called (CreateShader t) (s\<lparr>objects := objects s @ [ShaderObj (new_shader t)]\<rparr>))"

text \<open>
  Modelled from the spec: \<^verbatim>\<open>glShaderSource\<close> (driver) sets the source text of a shader
  object; the helper passes one string.
\<close>

definition glShaderSource :: "nat \<Rightarrow> string \<Rightarrow> state \<Rightarrow> state" where
  "glShaderSource n src s =
     called (ShaderSource n src)
       (case lookup s n of
          Some (ShaderObj sh) \<Rightarrow> put n (ShaderObj (sh\<lparr>sh_source := src\<rparr>)) s
        | _ \<Rightarrow> s)"

text \<open>
  Modelled from the spec: \<^verbatim>\<open>glCompileShader\<close> (driver) compiles the source of a shader
  object and stores the compile status and the compile log in it.
\<close>

definition glCompileShader :: "driver \<Rightarrow> nat \<Rightarrow> state \<Rightarrow> state" where
  "glCompileShader drv n s =
     called (CompileShader n)
       (case lookup s n of
          Some (ShaderObj sh) \<Rightarrow>
            (case compile drv (sh_type sh) (sh_source sh) of
               (ok, lg) \<Rightarrow>
                 put n (ShaderObj (sh\<lparr>sh_compile_status := ok, sh_info_log := lg\<rparr>)) s)
        | _ \<Rightarrow> s)"

text \<open>
  Modelled from the spec: \<^verbatim>\<open>glGetShaderiv\<close> (driver) with \<^verbatim>\<open>GL_COMPILE_STATUS\<close> queries the
  compile status. It writes the answer through a pointer; for a handle that is no shader
  object the driver writes nothing, which is the result \<open>None\<close>.
\<close>

definition glGetShaderiv_COMPILE_STATUS :: "nat \<Rightarrow> state \<Rightarrow> bool option \<times> state" where
  "glGetShaderiv_COMPILE_STATUS n s =
     ((case lookup s n of Some (ShaderObj sh) \<Rightarrow> Some (sh_compile_status sh) | _ \<Rightarrow> None),
      called (GetShaderiv n) s)"

text \<open>
  Modelled from the spec: \<^verbatim>\<open>glGetShaderInfoLog\<close> (driver) fetches the compile log. The log
  is copied into a buffer of \<open>bufSize\<close> characters, the last of which is the terminating
  null character.
\<close>

definition glGetShaderInfoLog :: "nat \<Rightarrow> nat \<Rightarrow> state \<Rightarrow> string option \<times> state" where
  "glGetShaderInfoLog n bufSize s =
     ((case lookup s n of
         Some (ShaderObj sh) \<Rightarrow> Some (take (bufSize - 1) (sh_info_log sh))
       | _ \<Rightarrow> None),
      called (GetShaderInfoLog n bufSize) s)"

text \<open>
  Modelled from the spec: \<^verbatim>\<open>glCreateProgram\<close> (driver) allocates a program object and
  returns its handle.
\<close>

definition glCreateProgram :: "state \<Rightarrow> nat \<times> state" where
  "glCreateProgram s =
     (Suc (length (objects s)),
      called CreateProgram (s\<lparr>objects := objects s @ [ProgramObj new_program]\<rparr>))"

text \<open>
  Modelled from the spec: \<^verbatim>\<open>glAttachShader\<close> (driver) attaches a shader object to a program
  object.
\<close>

definition glAttachShader :: "nat \<Rightarrow> nat \<Rightarrow> state \<Rightarrow> state" where
  "glAttachShader p n s =
     called (AttachShader p n)
       (case lookup s p of
          Some (ProgramObj po) \<Rightarrow>
            (case lookup s n of
               Some (ShaderObj sh) \<Rightarrow>
                 put p (ProgramObj (po\<lparr>pr_attached := pr_attached po @ [n]\<rparr>)) s
             | _ \<Rightarrow> s)
        | _ \<Rightarrow> s)"

text \<open>
  Modelled from the spec: the shader objects attached to a program, in the order they were
  attached.
\<close>

fun attached_shaders :: "state \<Rightarrow> nat list \<Rightarrow> shader_obj list" where
  "attached_shaders s [] = []"
| "attached_shaders s (n # ns) =
     (case lookup s n of
        Some (ShaderObj sh) \<Rightarrow> sh # attached_shaders s ns
      | _ \<Rightarrow> attached_shaders s ns)"

text \<open>
  Modelled from the spec: \<^verbatim>\<open>glLinkProgram\<close> (driver) links the attached stage objects into
  the program and stores the link status, the link log and the active uniforms, each with
  the value zero.
\<close>

definition glLinkProgram :: "driver \<Rightarrow> nat \<Rightarrow> state \<Rightarrow> state" where
  "glLinkProgram drv p s =
     called (LinkProgram p)
       (case lookup s p of
          Some (ProgramObj po) \<Rightarrow>
            (case link drv (attached_shaders s (pr_attached po)) of
               (ok, lg, names) \<Rightarrow>
                 put p (ProgramObj (po\<lparr>pr_link_status := ok, pr_info_log := lg,
                   pr_uniforms := map (\<lambda>name. (name, UInt 0)) names\<rparr>)) s)
        | _ \<Rightarrow> s)"

text \<open>
  Modelled from the spec: \<^verbatim>\<open>glGetProgramiv\<close> (driver) with \<^verbatim>\<open>GL_LINK_STATUS\<close> queries the
  link status; \<open>None\<close> again when the driver writes nothing.
\<close>

definition glGetProgramiv_LINK_STATUS :: "nat \<Rightarrow> state \<Rightarrow> bool option \<times> state" where
  "glGetProgramiv_LINK_STATUS p s =
     ((case lookup s p of Some (ProgramObj po) \<Rightarrow> Some (pr_link_status po) | _ \<Rightarrow> None),
      called (GetProgramiv p) s)"

text \<open>
  Modelled from the spec: \<^verbatim>\<open>glGetProgramInfoLog\<close> (driver) fetches the link log into a
  buffer of \<open>bufSize\<close> characters.
\<close>

definition glGetProgramInfoLog :: "nat \<Rightarrow> nat \<Rightarrow> state \<Rightarrow> string option \<times> state" where
  "glGetProgramInfoLog p bufSize s =
     ((case lookup s p of
         Some (ProgramObj po) \<Rightarrow> Some (take (bufSize - 1) (pr_info_log po))
       | _ \<Rightarrow> None),
      called (GetProgramInfoLog p bufSize) s)"

text \<open>
  Modelled from the spec: whether a driver object is a program that has the shader \<open>n\<close>
  attached.
\<close>

definition is_attached :: "nat \<Rightarrow> gl_object \<Rightarrow> bool" where
  "is_attached n ob = (case ob of ProgramObj po \<Rightarrow> n \<in> set (pr_attached po) | _ \<Rightarrow> False)"

text \<open>
  Modelled from the spec: \<^verbatim>\<open>glDeleteShader\<close> (driver) releases a shader object: one that is
  attached to a program is marked for deletion, one that is attached to none is released at
  once.
\<close>

definition glDeleteShader :: "nat \<Rightarrow> state \<Rightarrow> state" where
  "glDeleteShader n s =
     called (DeleteShader n)
       (case lookup s n of
          Some (ShaderObj sh) \<Rightarrow>
            (if list_ex (is_attached n) (objects s)
             then put n (ShaderObj (sh\<lparr>sh_delete_status := True\<rparr>)) s
             else put n Freed s)
        | _ \<Rightarrow> s)"

text \<open>
  Modelled from the spec: \<^verbatim>\<open>glUseProgram\<close> (driver) binds a program as the active one. A
  handle is valid for use when it stands for a program object that linked; an invalid
  handle is a no-op.
\<close>

definition glUseProgram :: "nat \<Rightarrow> state \<Rightarrow> state" where
  "glUseProgram p s =
     called (UseProgram p)
       (case lookup s p of
          Some (ProgramObj po) \<Rightarrow> (if pr_link_status po then s\<lparr>current_program := p\<rparr> else s)
        | _ \<Rightarrow> s)"

text \<open>
  Modelled from the spec: the location of an active uniform of a program; here it is the
  position of the name in the program's list of uniforms, and \<open>-1\<close> for a name that is
  not in it.
\<close>

fun location_of :: "string \<Rightarrow> (string \<times> uval) list \<Rightarrow> int \<Rightarrow> int" where
  "location_of name [] i = - 1"
| "location_of name (u # us) i = (if fst u = name then i else location_of name us (i + 1))"

text \<open>
  Modelled from the spec: \<^verbatim>\<open>glGetUniformLocation\<close> (driver) resolves a name to a uniform
  location within a program, \<open>-1\<close> when the name does not correspond to an active
  uniform.
\<close>

definition glGetUniformLocation :: "nat \<Rightarrow> string \<Rightarrow> state \<Rightarrow> int \<times> state" where
  "glGetUniformLocation p name s =
     ((case lookup s p of
         Some (ProgramObj po) \<Rightarrow> location_of name (pr_uniforms po) 0
       | _ \<Rightarrow> - 1),
      called (GetUniformLocation p name) s)"

text \<open>
  Modelled from the spec: a uniform write goes to the program that is currently bound,
  whichever program the location was resolved in; it stores the value if the location
  exists there and is silently discarded otherwise. Uniform types are not told apart.
\<close>

definition write_uniform :: "int \<Rightarrow> uval \<Rightarrow> state \<Rightarrow> state" where
  "write_uniform loc v s =
     (case lookup s (current_program s) of
        Some (ProgramObj po) \<Rightarrow>
          (if 0 \<le> loc \<and> loc < int (length (pr_uniforms po))
           then put (current_program s)
                  (ProgramObj (po\<lparr>pr_uniforms :=
                     (pr_uniforms po)[nat loc := (fst (pr_uniforms po ! nat loc), v)]\<rparr>)) s
           else s)
      | _ \<Rightarrow> s)"

text \<open>
  Modelled from the spec: \<^verbatim>\<open>glUniform1i\<close> (driver) writes an integer to a uniform location.
\<close>

definition glUniform1i :: "int \<Rightarrow> 32 word \<Rightarrow> state \<Rightarrow> state" where
  "glUniform1i loc v s = called (Uniform1i loc v) (write_uniform loc (UInt v) s)"

text \<open>
  Modelled from the spec: \<^verbatim>\<open>glUniform1f\<close> (driver) writes a float to a uniform location.
\<close>

definition glUniform1f :: "int \<Rightarrow> 32 word \<Rightarrow> state \<Rightarrow> state" where
  "glUniform1f loc v s = called (Uniform1f loc v) (write_uniform loc (UFloat v) s)"

text \<open>
  Modelled from the spec: the query call (driver) that reads a uniform back: the value
  stored at a location of a program.
\<close>

definition glGetUniform :: "nat \<Rightarrow> int \<Rightarrow> state \<Rightarrow> uval option" where
  "glGetUniform p loc s =
     (case lookup s p of
        Some (ProgramObj po) \<Rightarrow>
          (if 0 \<le> loc \<and> loc < int (length (pr_uniforms po))
           then Some (snd (pr_uniforms po ! nat loc)) else None)
      | _ \<Rightarrow> None)"

section \<open>The class \<^verbatim>\<open>Shader\<close>\<close>

record Shader =
  ID :: nat

subsection \<open>Reading the two files\<close>

text \<open>
  Both streams are set to throw on \<^verbatim>\<open>failbit\<close> and \<^verbatim>\<open>badbit\<close>, so \<^verbatim>\<open>open\<close> on a path that
  cannot be opened throws \<^verbatim>\<open>std::ifstream::failure\<close>. An exception carries the state reached
  when it was thrown. The two paths are \<^verbatim>\<open>const char*\<close>, C strings as they stand.
\<close>

datatype exn = ifstream_failure

type_synonym ifstream = disk_entry

definition ifstream_open :: "string \<Rightarrow> state \<Rightarrow> (exn + ifstream) \<times> state" where
  "ifstream_open path s =
     ((case files s path of None \<Rightarrow> Inl ifstream_failure | Some entry \<Rightarrow> Inr entry),
      s\<lparr>opened := opened s @ [path]\<rparr>)"

text \<open>
  \<^verbatim>\<open>stream << file.rdbuf()\<close> copies every byte of the file into the string stream. When no
  byte can be read, the failure is recorded in the string stream, not in the file stream:
  the string stream was not set to throw, so nothing is thrown and it stays empty.
\<close>

definition rdbuf :: "ifstream \<Rightarrow> string" where
  "rdbuf stream = (case stream of Regular content \<Rightarrow> content | Unreadable \<Rightarrow> [])"

text \<open>
  The \<^verbatim>\<open>try\<close> block: open the vertex file, open the fragment file, read both through their
  buffers, and only then assign \<^verbatim>\<open>vertexCode\<close> and \<^verbatim>\<open>fragmentCode\<close>. The result is the
  pair assigned, or the exception that left the block.
\<close>

definition try_block :: "string \<Rightarrow> string \<Rightarrow> state \<Rightarrow> (exn + string \<times> string) \<times> state" where
  "try_block vertexPath fragmentPath s =
     (case ifstream_open vertexPath s of
        (Inl e, s1) \<Rightarrow> (Inl e, s1)
      | (Inr vShaderFile, s1) \<Rightarrow>
          (case ifstream_open fragmentPath s1 of
             (Inl e, s2) \<Rightarrow> (Inl e, s2)
           | (Inr fShaderFile, s2) \<Rightarrow>
               (let vShaderStream = rdbuf vShaderFile;
                    fShaderStream = rdbuf fShaderFile;
                    vertexCode = vShaderStream;
                    fragmentCode = fShaderStream
                in (Inr (vertexCode, fragmentCode), s2))))"

subsection \<open>C strings\<close>

text \<open>
  \<^verbatim>\<open>c_str()\<close> gives a pointer to the characters of a \<^verbatim>\<open>std::string\<close>, followed by a null
  character. Whoever reads through the pointer as a C string, as the driver does when it is
  given no length and as \<^verbatim>\<open>operator<<\<close> does for a \<^verbatim>\<open>char\<close> array, sees the characters
  before the first null character.
\<close>

definition c_str :: "string \<Rightarrow> string" where
  "c_str str = takeWhile (\<lambda>c. c \<noteq> CHR 0x00) str"

subsection \<open>Diagnostics\<close>

definition cout :: "string \<Rightarrow> state \<Rightarrow> state" where
  "cout text s = s\<lparr>out := out s @ [text]\<rparr>"

definition endl :: string where
  "endl = ''\<newline>''"

definition FILE_NOT_SUCCESFULLY_READ :: string where
  "FILE_NOT_SUCCESFULLY_READ = ''ERROR::SHADER::FILE_NOT_SUCCESFULLY_READ'' @ endl"

definition separator :: string where
  "separator = ''\<newline> -- --------------------------------------------------- -- ''"

definition compile_tag :: "string \<Rightarrow> string" where
  "compile_tag type = ''ERROR::SHADER_COMPILATION_ERROR of type: '' @ type @ ''\<newline>''"

definition link_tag :: "string \<Rightarrow> string" where
  "link_tag type = ''ERROR::PROGRAM_LINKING_ERROR of type: '' @ type @ ''\<newline>''"

text \<open>
  \<^verbatim>\<open>checkCompileErrors\<close> declares \<^verbatim>\<open>int success\<close> and \<^verbatim>\<open>char infoLog[1024]\<close> without
  initialising them. When the driver writes nothing into them the function reads an
  indeterminate value: that is the fault below. \<^verbatim>\<open>type\<close> is a \<^verbatim>\<open>std::string\<close> and is printed
  whole; \<^verbatim>\<open>infoLog\<close> is a \<^verbatim>\<open>char\<close> array and is printed as a C string.
\<close>

datatype fault = Uninitialised_read

definition checkCompileErrors :: "nat \<Rightarrow> string \<Rightarrow> state \<Rightarrow> fault + state" where
  "checkCompileErrors shader type s =
     (if type \<noteq> ''PROGRAM'' then
        (case glGetShaderiv_COMPILE_STATUS shader s of
           (None, s1) \<Rightarrow> Inl Uninitialised_read
         | (Some success, s1) \<Rightarrow>
             (if \<not> success then
                (case glGetShaderInfoLog shader 1024 s1 of
                   (None, s2) \<Rightarrow> Inl Uninitialised_read
                 | (Some infoLog, s2) \<Rightarrow>
                     Inr (cout (compile_tag type @ c_str infoLog @ separator @ endl) s2))
              else Inr s1))
      else
        (case glGetProgramiv_LINK_STATUS shader s of
           (None, s1) \<Rightarrow> Inl Uninitialised_read
         | (Some success, s1) \<Rightarrow>
             (if \<not> success then
                (case glGetProgramInfoLog shader 1024 s1 of
                   (None, s2) \<Rightarrow> Inl Uninitialised_read
                 | (Some infoLog, s2) \<Rightarrow>
                     Inr (cout (link_tag type @ c_str infoLog @ separator @ endl) s2))
              else Inr s1)))"

subsection \<open>The constructor\<close>

text \<open>
  The statements of the constructor in their order. Step 1: the \<^verbatim>\<open>try\<close> block, whose
  handler prints and leaves both strings as they were declared, empty; then the two
  \<^verbatim>\<open>c_str()\<close>. Step 2: the vertex shader, then the fragment shader; \<^verbatim>\<open>glShaderSource\<close> is
  given one string and no length, so the driver reads a C string. Step 3: the program;
  then both shaders are deleted.
\<close>

definition Shader :: "driver \<Rightarrow> string \<Rightarrow> string \<Rightarrow> state \<Rightarrow> fault + Shader \<times> state" where
  "Shader drv vertexPath fragmentPath s0 =
     (let ((vertexCode, fragmentCode), s1) =
            (case try_block vertexPath fragmentPath s0 of
               (Inr codes, s) \<Rightarrow> (codes, s)
             | (Inl ifstream_failure, s) \<Rightarrow> (([], []), cout FILE_NOT_SUCCESFULLY_READ s));
          vShaderCode = c_str vertexCode;
          fShaderCode = c_str fragmentCode;
          (vertex, s2) = glCreateShader GL_VERTEX_SHADER s1;
          s3 = glShaderSource vertex vShaderCode s2;
          s4 = glCompileShader drv vertex s3
      in case checkCompileErrors vertex ''VERTEX'' s4 of
           Inl f \<Rightarrow> Inl f
         | Inr s5 \<Rightarrow>
      (let (fragment, s6) = glCreateShader GL_FRAGMENT_SHADER s5;
           s7 = glShaderSource fragment fShaderCode s6;
           s8 = glCompileShader drv fragment s7
       in case checkCompileErrors fragment ''FRAGMENT'' s8 of
            Inl f \<Rightarrow> Inl f
          | Inr s9 \<Rightarrow>
      (let (prog, s10) = glCreateProgram s9;
           s11 = glAttachShader prog vertex s10;
           s12 = glAttachShader prog fragment s11;
           s13 = glLinkProgram drv prog s12
       in case checkCompileErrors prog ''PROGRAM'' s13 of
            Inl f \<Rightarrow> Inl f
          | Inr s14 \<Rightarrow>
              Inr (\<lparr>ID = prog\<rparr>, glDeleteShader fragment (glDeleteShader vertex s14)))))"

subsection \<open>The methods\<close>

definition use :: "Shader \<Rightarrow> state \<Rightarrow> state" where
  "use this s = glUseProgram (ID this) s"

definition setBool :: "Shader \<Rightarrow> string \<Rightarrow> bool \<Rightarrow> state \<Rightarrow> state" where
  "setBool this name v s =
     (case glGetUniformLocation (ID this) (c_str name) s of
        (loc, s1) \<Rightarrow> glUniform1i loc (if v then 1 else 0) s1)"

definition setInt :: "Shader \<Rightarrow> string \<Rightarrow> 32 word \<Rightarrow> state \<Rightarrow> state" where
  "setInt this name v s =
     (case glGetUniformLocation (ID this) (c_str name) s of
        (loc, s1) \<Rightarrow> glUniform1i loc v s1)"

definition setFloat :: "Shader \<Rightarrow> string \<Rightarrow> 32 word \<Rightarrow> state \<Rightarrow> state" where
  "setFloat this name v s =
     (case glGetUniformLocation (ID this) (c_str name) s of
        (loc, s1) \<Rightarrow> glUniform1f loc v s1)"

section \<open>What a run of the helper shows\<close>

text \<open>
  The output statements executed and the driver calls issued between a state and a later
  one.
\<close>

definition emitted :: "state \<Rightarrow> state \<Rightarrow> string list" where
  "emitted s s' = drop (length (out s)) (out s')"

definition issued :: "state \<Rightarrow> state \<Rightarrow> gl_call list" where
  "issued s s' = drop (length (history s)) (history s')"

text \<open>
  The three kinds of diagnostic are told apart by how the statement begins: the fixed
  file-read line, or the tag line of \<^verbatim>\<open>checkCompileErrors\<close> with the stage name.
\<close>

definition is_file_diagnostic :: "string \<Rightarrow> bool" where
  "is_file_diagnostic d = (d = FILE_NOT_SUCCESFULLY_READ)"

definition is_compile_diagnostic :: "string \<Rightarrow> string \<Rightarrow> bool" where
  "is_compile_diagnostic type d = (take (length (compile_tag type)) d = compile_tag type)"

definition is_link_diagnostic :: "string \<Rightarrow> bool" where
  "is_link_diagnostic d =
     (take (length (link_tag ''PROGRAM'')) d = link_tag ''PROGRAM'')"

definition is_info_log_query :: "gl_call \<Rightarrow> bool" where
  "is_info_log_query c =
     (case c of GetShaderInfoLog n b \<Rightarrow> True | GetProgramInfoLog n b \<Rightarrow> True | _ \<Rightarrow> False)"

definition is_delete :: "gl_call \<Rightarrow> bool" where
  "is_delete c = (case c of DeleteShader n \<Rightarrow> True | _ \<Rightarrow> False)"

text \<open>The calls that follow the first \<^verbatim>\<open>glLinkProgram\<close> of a program.\<close>

definition after_link :: "nat \<Rightarrow> gl_call list \<Rightarrow> gl_call list" where
  "after_link p cs = drop 1 (dropWhile (\<lambda>c. c \<noteq> LinkProgram p) cs)"

text \<open>
  What \<^verbatim>\<open>vertexCode\<close> and \<^verbatim>\<open>fragmentCode\<close> hold after step 1 of the constructor: what was
  read from the two files when both open, and two empty strings otherwise. The driver is
  handed the \<^verbatim>\<open>c_str()\<close> of each.
\<close>

definition source_codes :: "string \<Rightarrow> string \<Rightarrow> state \<Rightarrow> string \<times> string" where
  "source_codes vp fp s =
     (case files s vp of
        None \<Rightarrow> ([], [])
      | Some vf \<Rightarrow> (case files s fp of None \<Rightarrow> ([], []) | Some ff \<Rightarrow> (rdbuf vf, rdbuf ff)))"

definition shader_codes :: "string \<Rightarrow> string \<Rightarrow> state \<Rightarrow> string \<times> string" where
  "shader_codes vp fp s =
     (case source_codes vp fp s of
        (vertexCode, fragmentCode) \<Rightarrow> (c_str vertexCode, c_str fragmentCode))"

text \<open>The shader object the driver holds once a source has been set and compiled.\<close>

definition compiled :: "driver \<Rightarrow> stage \<Rightarrow> string \<Rightarrow> shader_obj" where
  "compiled drv t src = \<lparr>sh_type = t, sh_source = src,
     sh_compile_status = fst (compile drv t src), sh_info_log = snd (compile drv t src),
     sh_delete_status = False\<rparr>"

definition compile_ok :: "driver \<Rightarrow> stage \<Rightarrow> string \<Rightarrow> bool" where
  "compile_ok drv t src = fst (compile drv t src)"

definition link_ok :: "driver \<Rightarrow> string \<Rightarrow> string \<Rightarrow> bool" where
  "link_ok drv vc fc =
     fst (link drv [compiled drv GL_VERTEX_SHADER vc, compiled drv GL_FRAGMENT_SHADER fc])"

definition active_uniforms :: "state \<Rightarrow> nat \<Rightarrow> string list" where
  "active_uniforms s p =
     (case lookup s p of Some (ProgramObj po) \<Rightarrow> map fst (pr_uniforms po) | _ \<Rightarrow> [])"

text \<open>The calls a caller can make on a constructed \<^verbatim>\<open>Shader\<close>, and a sequence of them.\<close>

datatype member_call =
    Use
  | SetBool string bool
  | SetInt string "32 word"
  | SetFloat string "32 word"

fun invoke :: "member_call \<Rightarrow> Shader \<times> state \<Rightarrow> Shader \<times> state" where
  "invoke Use (this, s) = (this, use this s)"
| "invoke (SetBool name v) (this, s) = (this, setBool this name v s)"
| "invoke (SetInt name v) (this, s) = (this, setInt this name v s)"
| "invoke (SetFloat name v) (this, s) = (this, setFloat this name v s)"

fun invoke_all :: "member_call list \<Rightarrow> Shader \<times> state \<Rightarrow> Shader \<times> state" where
  "invoke_all [] c = c"
| "invoke_all (m # ms) c = invoke_all ms (invoke m c)"

text \<open>The shader or program object a name stands for, if any.\<close>

definition shader_at :: "state \<Rightarrow> nat \<Rightarrow> shader_obj option" where
  "shader_at s n = (case lookup s n of Some (ShaderObj sh) \<Rightarrow> Some sh | _ \<Rightarrow> None)"

definition program_at :: "state \<Rightarrow> nat \<Rightarrow> program_obj option" where
  "program_at s n = (case lookup s n of Some (ProgramObj po) \<Rightarrow> Some po | _ \<Rightarrow> None)"


text \<open>
  A summary of one run of the constructor from a state \<open>s\<close>, proved below to be what the
  constructor does: the diagnostics it prints, the objects it adds and the calls it makes.
\<close>

definition link_result :: "driver \<Rightarrow> string \<Rightarrow> string \<Rightarrow> bool \<times> string \<times> string list" where
  "link_result drv vc fc =
     link drv [compiled drv GL_VERTEX_SHADER vc, compiled drv GL_FRAGMENT_SHADER fc]"

definition diagnostics :: "driver \<Rightarrow> string \<Rightarrow> string \<Rightarrow> state \<Rightarrow> string list" where
  "diagnostics drv vp fp s =
     (case shader_codes vp fp s of
        (vc, fc) \<Rightarrow>
            (if files s vp = None \<or> files s fp = None then [FILE_NOT_SUCCESFULLY_READ] else [])
          @ (if compile_ok drv GL_VERTEX_SHADER vc then []
             else [compile_tag ''VERTEX''
                   @ c_str (take 1023 (snd (compile drv GL_VERTEX_SHADER vc)))
                   @ separator @ endl])
          @ (if compile_ok drv GL_FRAGMENT_SHADER fc then []
             else [compile_tag ''FRAGMENT''
                   @ c_str (take 1023 (snd (compile drv GL_FRAGMENT_SHADER fc)))
                   @ separator @ endl])
          @ (if link_ok drv vc fc then []
             else [link_tag ''PROGRAM''
                   @ c_str (take 1023 (fst (snd (link_result drv vc fc))))
                   @ separator @ endl]))"

definition built_objects :: "driver \<Rightarrow> string \<Rightarrow> string \<Rightarrow> state \<Rightarrow> gl_object list" where
  "built_objects drv vp fp s =
     (case shader_codes vp fp s of
        (vc, fc) \<Rightarrow>
          [ShaderObj ((compiled drv GL_VERTEX_SHADER vc)\<lparr>sh_delete_status := True\<rparr>),
           ShaderObj ((compiled drv GL_FRAGMENT_SHADER fc)\<lparr>sh_delete_status := True\<rparr>),
           ProgramObj \<lparr>pr_attached = [length (objects s) + 1, length (objects s) + 2],
             pr_link_status = link_ok drv vc fc,
             pr_info_log = fst (snd (link_result drv vc fc)),
             pr_uniforms = map (\<lambda>name. (name, UInt 0)) (snd (snd (link_result drv vc fc)))\<rparr>])"

definition build_calls :: "driver \<Rightarrow> string \<Rightarrow> string \<Rightarrow> state \<Rightarrow> gl_call list" where
  "build_calls drv vp fp s =
     (case shader_codes vp fp s of
        (vc, fc) \<Rightarrow>
            [CreateShader GL_VERTEX_SHADER, ShaderSource (length (objects s) + 1) vc,
             CompileShader (length (objects s) + 1), GetShaderiv (length (objects s) + 1)]
          @ (if compile_ok drv GL_VERTEX_SHADER vc then []
             else [GetShaderInfoLog (length (objects s) + 1) 1024])
          @ [CreateShader GL_FRAGMENT_SHADER, ShaderSource (length (objects s) + 2) fc,
             CompileShader (length (objects s) + 2), GetShaderiv (length (objects s) + 2)]
          @ (if compile_ok drv GL_FRAGMENT_SHADER fc then []
             else [GetShaderInfoLog (length (objects s) + 2) 1024])
          @ [CreateProgram,
             AttachShader (length (objects s) + 3) (length (objects s) + 1),
             AttachShader (length (objects s) + 3) (length (objects s) + 2),
             LinkProgram (length (objects s) + 3), GetProgramiv (length (objects s) + 3)]
          @ (if link_ok drv vc fc then []
             else [GetProgramInfoLog (length (objects s) + 3) 1024])
          @ [DeleteShader (length (objects s) + 1), DeleteShader (length (objects s) + 2)])"

text \<open>
  The uniform name a call is given and the value it writes, if it is one of the three
  setters.
\<close>

fun uniform_write :: "member_call \<Rightarrow> (string \<times> uval) option" where
  "uniform_write Use = None"
| "uniform_write (SetBool name v) = Some (name, UInt (if v then 1 else 0))"
| "uniform_write (SetInt name v) = Some (name, UInt v)"
| "uniform_write (SetFloat name v) = Some (name, UFloat v)"

text \<open>What one run of the constructor prints (nothing is the value for a run that faults).\<close>

definition printed :: "driver \<Rightarrow> string \<Rightarrow> string \<Rightarrow> state \<Rightarrow> string list" where
  "printed drv vp fp s =
     (case Shader drv vp fp s of Inr (this, s') \<Rightarrow> emitted s s' | Inl f \<Rightarrow> [])"

section \<open>A small driver and disk to run the helper on\<close>

text \<open>
  A driver whose compiler accepts every source that is not empty and has no exclamation
  mark in it, and whose linker, as OpenGL drivers do, refuses a program with a shader
  attached that did not compile; every program it links has the two uniforms
  \<^verbatim>\<open>u_name\<close> and \<^verbatim>\<open>other\<close>.
\<close>

definition demo_driver :: driver where
  "demo_driver =
     \<lparr>compile = (\<lambda>t src. if src = [] \<or> CHR ''!'' \<in> set src
                           then (False, ''syntax error'') else (True, [])),
      link = (\<lambda>shs. if list_all sh_compile_status shs
                     then (True, [], [''u_name'', ''other''])
                     else (False, ''shader not compiled'', []))\<rparr>"

definition demo_start :: state where
  "demo_start =
     \<lparr>files = [''v.vs'' \<mapsto> Regular ''void main(){}'',
               ''f.fs'' \<mapsto> Regular ''void main(){}'',
               ''bad.fs'' \<mapsto> Regular ''void main(){!}'',
               ''nul.vs'' \<mapsto> Regular (''void main(){}'' @ [CHR 0x00] @ ''!''),
               ''dir'' \<mapsto> Unreadable],
      opened = [], out = [], objects = [], current_program = 0, history = []\<rparr>"

text \<open>
  The state the constructor reaches from \<open>demo_start\<close> with the two valid files (proved
  below), the state it reaches when it is run a second time from there, and the latter
  with the first of the two programs bound.
\<close>

definition demo_built :: state where
  "demo_built =
     \<lparr>files = files demo_start,
      opened = [''v.vs'', ''f.fs''],
      out = [],
      objects =
        [ShaderObj \<lparr>sh_type = GL_VERTEX_SHADER, sh_source = ''void main(){}'',
           sh_compile_status = True, sh_info_log = [], sh_delete_status = True\<rparr>,
         ShaderObj \<lparr>sh_type = GL_FRAGMENT_SHADER, sh_source = ''void main(){}'',
           sh_compile_status = True, sh_info_log = [], sh_delete_status = True\<rparr>,
         ProgramObj \<lparr>pr_attached = [1, 2], pr_link_status = True, pr_info_log = [],
           pr_uniforms = [(''u_name'', UInt 0), (''other'', UInt 0)]\<rparr>],
      current_program = 0,
      history =
        [CreateShader GL_VERTEX_SHADER, ShaderSource 1 ''void main(){}'', CompileShader 1,
         GetShaderiv 1,
         CreateShader GL_FRAGMENT_SHADER, ShaderSource 2 ''void main(){}'', CompileShader 2,
         GetShaderiv 2,
         CreateProgram, AttachShader 3 1, AttachShader 3 2, LinkProgram 3, GetProgramiv 3,
         DeleteShader 1, DeleteShader 2]\<rparr>"

definition demo_built_twice :: state where
  "demo_built_twice =
     demo_built
     \<lparr>opened := [''v.vs'', ''f.fs'', ''v.vs'', ''f.fs''],
      objects := objects demo_built @
        [ShaderObj \<lparr>sh_type = GL_VERTEX_SHADER, sh_source = ''void main(){}'',
           sh_compile_status = True, sh_info_log = [], sh_delete_status = True\<rparr>,
         ShaderObj \<lparr>sh_type = GL_FRAGMENT_SHADER, sh_source = ''void main(){}'',
           sh_compile_status = True, sh_info_log = [], sh_delete_status = True\<rparr>,
         ProgramObj \<lparr>pr_attached = [4, 5], pr_link_status = True, pr_info_log = [],
           pr_uniforms = [(''u_name'', UInt 0), (''other'', UInt 0)]\<rparr>],
      history := history demo_built @
        [CreateShader GL_VERTEX_SHADER, ShaderSource 4 ''void main(){}'', CompileShader 4,
         GetShaderiv 4,
         CreateShader GL_FRAGMENT_SHADER, ShaderSource 5 ''void main(){}'', CompileShader 5,
         GetShaderiv 5,
         CreateProgram, AttachShader 6 4, AttachShader 6 5, LinkProgram 6, GetProgramiv 6,
         DeleteShader 4, DeleteShader 5]\<rparr>"

definition demo_bound :: state where
  "demo_bound = use \<lparr>ID = 3\<rparr> demo_built_twice"

section \<open>Running the driver calls\<close>

abbreviation (input) St ::
  "(string \<rightharpoonup> disk_entry) \<Rightarrow> string list \<Rightarrow> string list \<Rightarrow> gl_object list \<Rightarrow> nat
     \<Rightarrow> gl_call list \<Rightarrow> state" where
  "St F P U xs c h \<equiv>
     \<lparr>files = F, opened = P, out = U, objects = xs, current_program = c, history = h\<rparr>"

text \<open>
  Objects are named by position, so the three objects the constructor creates sit after
  the objects \<open>xs\<close> that were there before, under the names \<open>length xs + 1\<close>,
  \<open>length xs + 2\<close> and \<open>length xs + 3\<close>.
\<close>

lemma lookup_first: "lookup (St F P U (xs @ a # ys) c h) (Suc (length xs)) = Some a"
  by (simp add: lookup_def)

lemma lookup_second:
  "lookup (St F P U (xs @ a # b # ys) c h) (Suc (Suc (length xs))) = Some b"
  by (simp add: lookup_def nth_append)

lemma lookup_third:
  "lookup (St F P U (xs @ a # b # d # ys) c h) (Suc (Suc (Suc (length xs)))) = Some d"
  by (simp add: lookup_def nth_append)

lemma put_first:
  "put (Suc (length xs)) y (St F P U (xs @ a # ys) c h) = St F P U (xs @ y # ys) c h"
  by (simp add: put_def)

lemma put_second:
  "put (Suc (Suc (length xs))) y (St F P U (xs @ a # b # ys) c h)
     = St F P U (xs @ a # y # ys) c h"
  by (simp add: put_def list_update_append)

lemma put_third:
  "put (Suc (Suc (Suc (length xs)))) y (St F P U (xs @ a # b # d # ys) c h)
     = St F P U (xs @ a # b # y # ys) c h"
  by (simp add: put_def list_update_append)

lemma step1:
  "(case try_block vp fp (St F P U xs c h) of
      (Inr cs, s) \<Rightarrow> (cs, s)
    | (Inl ifstream_failure, s) \<Rightarrow> (([], []), cout FILE_NOT_SUCCESFULLY_READ s))
   = (source_codes vp fp (St F P U xs c h),
      St F (P @ (if F vp = None then [vp] else [vp, fp]))
        (U @ (if F vp = None \<or> F fp = None then [FILE_NOT_SUCCESFULLY_READ] else []))
        xs c h)"
  by (simp add: try_block_def ifstream_open_def source_codes_def cout_def Let_def
      split: option.splits)

lemma create_shader:
  "glCreateShader t (St F P U xs c h)
     = (Suc (length xs),
        St F P U (xs @ [ShaderObj (new_shader t)]) c (h @ [CreateShader t]))"
  by (simp add: glCreateShader_def called_def)

lemma source_first:
  "glShaderSource (Suc (length xs)) src (St F P U (xs @ ShaderObj sh # ys) c h)
     = St F P U (xs @ ShaderObj (sh\<lparr>sh_source := src\<rparr>) # ys) c
         (h @ [ShaderSource (Suc (length xs)) src])"
  by (simp add: glShaderSource_def called_def lookup_first put_first)

lemma source_second:
  "glShaderSource (Suc (Suc (length xs))) src (St F P U (xs @ a # ShaderObj sh # ys) c h)
     = St F P U (xs @ a # ShaderObj (sh\<lparr>sh_source := src\<rparr>) # ys) c
         (h @ [ShaderSource (Suc (Suc (length xs))) src])"
  by (simp add: glShaderSource_def called_def lookup_second put_second)

lemma compile_first:
  "glCompileShader drv (Suc (length xs)) (St F P U (xs @ ShaderObj sh # ys) c h)
     = St F P U
         (xs @ ShaderObj (sh\<lparr>sh_compile_status := fst (compile drv (sh_type sh) (sh_source sh)),
                              sh_info_log := snd (compile drv (sh_type sh) (sh_source sh))\<rparr>) # ys)
         c (h @ [CompileShader (Suc (length xs))])"
  by (simp add: glCompileShader_def called_def lookup_first put_first case_prod_beta)

lemma compile_second:
  "glCompileShader drv (Suc (Suc (length xs))) (St F P U (xs @ a # ShaderObj sh # ys) c h)
     = St F P U
         (xs @ a # ShaderObj (sh\<lparr>sh_compile_status := fst (compile drv (sh_type sh) (sh_source sh)),
                              sh_info_log := snd (compile drv (sh_type sh) (sh_source sh))\<rparr>) # ys)
         c (h @ [CompileShader (Suc (Suc (length xs)))])"
  by (simp add: glCompileShader_def called_def lookup_second put_second case_prod_beta)

lemma check_first:
  "type \<noteq> ''PROGRAM'' \<Longrightarrow>
   checkCompileErrors (Suc (length xs)) type (St F P U (xs @ ShaderObj sh # ys) c h)
     = Inr (St F P
         (U @ (if sh_compile_status sh then []
               else [compile_tag type @ c_str (take 1023 (sh_info_log sh)) @ separator @ endl]))
         (xs @ ShaderObj sh # ys) c
         (h @ GetShaderiv (Suc (length xs))
            # (if sh_compile_status sh then []
               else [GetShaderInfoLog (Suc (length xs)) 1024])))"
  by (simp add: checkCompileErrors_def glGetShaderiv_COMPILE_STATUS_def
      glGetShaderInfoLog_def called_def cout_def lookup_first)

lemma check_second:
  "type \<noteq> ''PROGRAM'' \<Longrightarrow>
   checkCompileErrors (Suc (Suc (length xs))) type (St F P U (xs @ a # ShaderObj sh # ys) c h)
     = Inr (St F P
         (U @ (if sh_compile_status sh then []
               else [compile_tag type @ c_str (take 1023 (sh_info_log sh)) @ separator @ endl]))
         (xs @ a # ShaderObj sh # ys) c
         (h @ GetShaderiv (Suc (Suc (length xs)))
            # (if sh_compile_status sh then []
               else [GetShaderInfoLog (Suc (Suc (length xs))) 1024])))"
  by (simp add: checkCompileErrors_def glGetShaderiv_COMPILE_STATUS_def
      glGetShaderInfoLog_def called_def cout_def lookup_second)

lemma create_program:
  "glCreateProgram (St F P U xs c h)
     = (Suc (length xs), St F P U (xs @ [ProgramObj new_program]) c (h @ [CreateProgram]))"
  by (simp add: glCreateProgram_def called_def)

lemma attach_first:
  "glAttachShader (Suc (Suc (Suc (length xs)))) (Suc (length xs))
      (St F P U (xs @ ShaderObj sh # b # ProgramObj po # ys) c h)
     = St F P U
         (xs @ ShaderObj sh # b
             # ProgramObj (po\<lparr>pr_attached := pr_attached po @ [Suc (length xs)]\<rparr>) # ys)
         c (h @ [AttachShader (Suc (Suc (Suc (length xs)))) (Suc (length xs))])"
  by (simp add: glAttachShader_def called_def lookup_first lookup_third put_third)

lemma attach_second:
  "glAttachShader (Suc (Suc (Suc (length xs)))) (Suc (Suc (length xs)))
      (St F P U (xs @ a # ShaderObj sh # ProgramObj po # ys) c h)
     = St F P U
         (xs @ a # ShaderObj sh
             # ProgramObj (po\<lparr>pr_attached := pr_attached po @ [Suc (Suc (length xs))]\<rparr>) # ys)
         c (h @ [AttachShader (Suc (Suc (Suc (length xs)))) (Suc (Suc (length xs)))])"
  by (simp add: glAttachShader_def called_def lookup_second lookup_third put_third)

lemma link_third:
  "pr_attached po = [Suc (length xs), Suc (Suc (length xs))] \<Longrightarrow>
   glLinkProgram drv (Suc (Suc (Suc (length xs))))
      (St F P U (xs @ ShaderObj va # ShaderObj fb # ProgramObj po # ys) c h)
     = St F P U
         (xs @ ShaderObj va # ShaderObj fb
             # ProgramObj (po\<lparr>pr_link_status := fst (link drv [va, fb]),
                 pr_info_log := fst (snd (link drv [va, fb])),
                 pr_uniforms := map (\<lambda>name. (name, UInt 0)) (snd (snd (link drv [va, fb])))\<rparr>)
             # ys)
         c (h @ [LinkProgram (Suc (Suc (Suc (length xs))))])"
  by (simp add: glLinkProgram_def called_def lookup_first lookup_second lookup_third
      put_third case_prod_beta)

lemma check_third:
  "checkCompileErrors (Suc (Suc (Suc (length xs)))) ''PROGRAM''
      (St F P U (xs @ a # b # ProgramObj po # ys) c h)
     = Inr (St F P
         (U @ (if pr_link_status po then []
               else [link_tag ''PROGRAM'' @ c_str (take 1023 (pr_info_log po)) @ separator @ endl]))
         (xs @ a # b # ProgramObj po # ys) c
         (h @ GetProgramiv (Suc (Suc (Suc (length xs))))
            # (if pr_link_status po then []
               else [GetProgramInfoLog (Suc (Suc (Suc (length xs)))) 1024])))"
  by (simp add: checkCompileErrors_def glGetProgramiv_LINK_STATUS_def
      glGetProgramInfoLog_def called_def cout_def lookup_third)

lemma delete_first:
  "Suc (length xs) \<in> set (pr_attached po) \<Longrightarrow>
   glDeleteShader (Suc (length xs)) (St F P U (xs @ ShaderObj sh # b # ProgramObj po # ys) c h)
     = St F P U (xs @ ShaderObj (sh\<lparr>sh_delete_status := True\<rparr>) # b # ProgramObj po # ys) c
         (h @ [DeleteShader (Suc (length xs))])"
  by (simp add: glDeleteShader_def called_def lookup_first put_first is_attached_def)

lemma delete_second:
  "Suc (Suc (length xs)) \<in> set (pr_attached po) \<Longrightarrow>
   glDeleteShader (Suc (Suc (length xs)))
      (St F P U (xs @ a # ShaderObj sh # ProgramObj po # ys) c h)
     = St F P U (xs @ a # ShaderObj (sh\<lparr>sh_delete_status := True\<rparr>) # ProgramObj po # ys) c
         (h @ [DeleteShader (Suc (Suc (length xs)))])"
  by (simp add: glDeleteShader_def called_def lookup_second put_second is_attached_def)

lemmas steps =
  step1 create_shader source_first source_second compile_first compile_second
  check_first check_second create_program attach_first attach_second link_third
  check_third delete_first delete_second

section \<open>The constructor, run from any state\<close>

text \<open>
  The constructor never faults. It returns the name of the program it created and the
  state below: the paths opened, the diagnostics printed, the three objects added and
  the driver calls made.
\<close>

lemma Shader_run:
  assumes "shader_codes vp fp s = (vc, fc)"
    and "compile drv GL_VERTEX_SHADER vc = (vok, vlog)"
    and "compile drv GL_FRAGMENT_SHADER fc = (fok, flog)"
    and "link drv
           [\<lparr>sh_type = GL_VERTEX_SHADER, sh_source = vc, sh_compile_status = vok,
              sh_info_log = vlog, sh_delete_status = False\<rparr>,
            \<lparr>sh_type = GL_FRAGMENT_SHADER, sh_source = fc, sh_compile_status = fok,
              sh_info_log = flog, sh_delete_status = False\<rparr>]
         = (lok, llog, names)"
  shows "Shader drv vp fp s = Inr (\<lparr>ID = length (objects s) + 3\<rparr>,
     s\<lparr>opened := opened s @ (if files s vp = None then [vp] else [vp, fp]),
       out := out s
         @ (if files s vp = None \<or> files s fp = None then [FILE_NOT_SUCCESFULLY_READ] else [])
         @ (if vok then [] else [compile_tag ''VERTEX'' @ c_str (take 1023 vlog) @ separator @ endl])
         @ (if fok then [] else [compile_tag ''FRAGMENT'' @ c_str (take 1023 flog) @ separator @ endl])
         @ (if lok then [] else [link_tag ''PROGRAM'' @ c_str (take 1023 llog) @ separator @ endl]),
       objects := objects s @
         [ShaderObj \<lparr>sh_type = GL_VERTEX_SHADER, sh_source = vc, sh_compile_status = vok,
            sh_info_log = vlog, sh_delete_status = True\<rparr>,
          ShaderObj \<lparr>sh_type = GL_FRAGMENT_SHADER, sh_source = fc, sh_compile_status = fok,
            sh_info_log = flog, sh_delete_status = True\<rparr>,
          ProgramObj \<lparr>pr_attached = [length (objects s) + 1, length (objects s) + 2],
            pr_link_status = lok, pr_info_log = llog,
            pr_uniforms = map (\<lambda>name. (name, UInt 0)) names\<rparr>],
       history := history s
         @ [CreateShader GL_VERTEX_SHADER, ShaderSource (length (objects s) + 1) vc,
            CompileShader (length (objects s) + 1), GetShaderiv (length (objects s) + 1)]
         @ (if vok then [] else [GetShaderInfoLog (length (objects s) + 1) 1024])
         @ [CreateShader GL_FRAGMENT_SHADER, ShaderSource (length (objects s) + 2) fc,
            CompileShader (length (objects s) + 2), GetShaderiv (length (objects s) + 2)]
         @ (if fok then [] else [GetShaderInfoLog (length (objects s) + 2) 1024])
         @ [CreateProgram,
            AttachShader (length (objects s) + 3) (length (objects s) + 1),
            AttachShader (length (objects s) + 3) (length (objects s) + 2),
            LinkProgram (length (objects s) + 3), GetProgramiv (length (objects s) + 3)]
         @ (if lok then [] else [GetProgramInfoLog (length (objects s) + 3) 1024])
         @ [DeleteShader (length (objects s) + 1), DeleteShader (length (objects s) + 2)]\<rparr>)"
proof (cases s)
  case (fields F P U xs c h)
  obtain vertexCode fragmentCode where
    read: "source_codes vp fp (St F P U xs c h) = (vertexCode, fragmentCode)"
    by (cases "source_codes vp fp (St F P U xs c h)")
  with assms(1) have cs: "c_str vertexCode = vc" "c_str fragmentCode = fc"
    by (simp_all add: fields shader_codes_def)
  show ?thesis
    using assms(2,3,4) unfolding fields Shader_def
    by (simp add: steps read cs Let_def new_shader_def new_program_def)
qed

lemma Shader_built:
  obtains s' where
    "Shader drv vp fp s = Inr (\<lparr>ID = length (objects s) + 3\<rparr>, s')"
    "files s' = files s"
    "current_program s' = current_program s"
    "opened s' = opened s @ (if files s vp = None then [vp] else [vp, fp])"
    "emitted s s' = diagnostics drv vp fp s"
    "objects s' = objects s @ built_objects drv vp fp s"
    "issued s s' = build_calls drv vp fp s"
proof -
  obtain vc fc where c: "shader_codes vp fp s = (vc, fc)"
    by (cases "shader_codes vp fp s")
  have l: "link drv
       [\<lparr>sh_type = GL_VERTEX_SHADER, sh_source = vc,
          sh_compile_status = fst (compile drv GL_VERTEX_SHADER vc),
          sh_info_log = snd (compile drv GL_VERTEX_SHADER vc), sh_delete_status = False\<rparr>,
        \<lparr>sh_type = GL_FRAGMENT_SHADER, sh_source = fc,
          sh_compile_status = fst (compile drv GL_FRAGMENT_SHADER fc),
          sh_info_log = snd (compile drv GL_FRAGMENT_SHADER fc), sh_delete_status = False\<rparr>]
     = (link_ok drv vc fc, fst (snd (link_result drv vc fc)), snd (snd (link_result drv vc fc)))"
    by (simp add: link_ok_def link_result_def compiled_def)
  note run = Shader_run [OF c prod.collapse [symmetric] prod.collapse [symmetric] l]
  show thesis
    by (rule that [OF run])
      (simp_all add: c emitted_def issued_def compile_ok_def compiled_def diagnostics_def
        built_objects_def build_calls_def)
qed

lemma shader_at_built:
  "objects s' = xs @ [ShaderObj a, ShaderObj b, c] \<Longrightarrow>
   shader_at s' (length xs + 1) = Some a \<and> shader_at s' (length xs + 2) = Some b"
  by (simp add: shader_at_def lookup_def nth_append)

lemma program_at_built:
  "objects s' = xs @ [a, b, ProgramObj po] \<Longrightarrow> program_at s' (length xs + 3) = Some po"
  by (simp add: program_at_def lookup_def nth_append)

subsection \<open>Telling the diagnostics apart\<close>

lemma compile_is_compile [simp]:
  "is_compile_diagnostic type (compile_tag type @ rest)"
  by (simp add: is_compile_diagnostic_def)

lemma vertex_not_fragment [simp]:
  "\<not> is_compile_diagnostic ''VERTEX'' (compile_tag ''FRAGMENT'' @ rest)"
  "\<not> is_compile_diagnostic ''FRAGMENT'' (compile_tag ''VERTEX'' @ rest)"
  by (simp_all add: is_compile_diagnostic_def compile_tag_def)

lemma link_not_compile [simp]:
  "\<not> is_compile_diagnostic ''VERTEX'' (link_tag ''PROGRAM'' @ rest)"
  "\<not> is_compile_diagnostic ''FRAGMENT'' (link_tag ''PROGRAM'' @ rest)"
  by (simp_all add: is_compile_diagnostic_def compile_tag_def link_tag_def)

lemma file_not_tagged [simp]:
  "\<not> is_compile_diagnostic ''VERTEX'' FILE_NOT_SUCCESFULLY_READ"
  "\<not> is_compile_diagnostic ''FRAGMENT'' FILE_NOT_SUCCESFULLY_READ"
  "\<not> is_link_diagnostic FILE_NOT_SUCCESFULLY_READ"
  by (simp_all add: is_compile_diagnostic_def is_link_diagnostic_def compile_tag_def
      link_tag_def FILE_NOT_SUCCESFULLY_READ_def endl_def)

lemma link_is_link [simp]:
  "is_link_diagnostic (link_tag ''PROGRAM'' @ rest)"
  by (simp add: is_link_diagnostic_def)

lemma compile_not_link [simp]:
  "\<not> is_link_diagnostic (compile_tag type @ rest)"
  by (simp add: is_link_diagnostic_def compile_tag_def link_tag_def)

lemma tagged_not_file [simp]:
  "\<not> is_file_diagnostic (compile_tag type @ rest)"
  "\<not> is_file_diagnostic (link_tag type @ rest)"
  "is_file_diagnostic FILE_NOT_SUCCESFULLY_READ"
  by (simp_all add: is_file_diagnostic_def compile_tag_def link_tag_def
      FILE_NOT_SUCCESFULLY_READ_def endl_def)

subsection \<open>The demonstration inputs\<close>

lemma c_str_plain [simp]:
  "c_str [] = []" "c_str ''void main(){}'' = ''void main(){}''"
  "c_str ''void main(){!}'' = ''void main(){!}''"
  "c_str (''void main(){}'' @ [CHR 0x00] @ ''!'') = ''void main(){}''"
  "c_str ''syntax error'' = ''syntax error''"
  "c_str ''shader not compiled'' = ''shader not compiled''"
  "c_str ''u_name'' = ''u_name''" "c_str ''other'' = ''other''"
  "c_str ''missing'' = ''missing''"
  "c_str (''u_name'' @ [CHR 0x00] @ ''x'') = ''u_name''"
  by (simp_all add: c_str_def)

lemma demo_codes:
  "shader_codes ''v.vs'' ''f.fs'' demo_start = (''void main(){}'', ''void main(){}'')"
  "shader_codes ''v.vs'' ''bad.fs'' demo_start = (''void main(){}'', ''void main(){!}'')"
  "shader_codes ''nope'' ''f.fs'' demo_start = ([], [])"
  "shader_codes ''v.vs'' ''nope'' demo_start = ([], [])"
  "shader_codes ''nul.vs'' ''f.fs'' demo_start = (''void main(){}'', ''void main(){}'')"
  "shader_codes ''nul.vs'' ''bad.fs'' demo_start = (''void main(){}'', ''void main(){!}'')"
  "shader_codes ''dir'' ''f.fs'' demo_start = ([], ''void main(){}'')"
  by (simp_all add: shader_codes_def source_codes_def rdbuf_def c_str_def demo_start_def)

lemma demo_compile:
  "compile_ok demo_driver t ''void main(){}''"
  "\<not> compile_ok demo_driver t ''void main(){!}''"
  "\<not> compile_ok demo_driver t []"
  by (simp_all add: compile_ok_def demo_driver_def)

lemma demo_link:
  "link_ok demo_driver ''void main(){}'' ''void main(){}''"
  "\<not> link_ok demo_driver ''void main(){}'' ''void main(){!}''"
  "\<not> link_ok demo_driver [] []"
  by (simp_all add: link_ok_def compiled_def demo_driver_def)

lemma demo_objects: "0 = length (objects demo_start)"
  by (simp add: demo_start_def)

section \<open>Diagnostics of the constructor\<close>

text \<open>
  C1. Whatever the two paths hold, the constructor returns the handle of the program it
  created. With \<open>vc\<close> and \<open>fc\<close> the two C strings it hands to the driver (what was read
  from each file, up to the first null character), a compile diagnostic tagged with a stage
  is printed if and only if the driver reports that stage's compile status as failure, and
  a link diagnostic if and only if it reports the link status as failure. When both files
  open, both stages compile and the program links, nothing is printed.
\<close>

theorem build_reports_exactly_the_failures:
  assumes "shader_codes vp fp s = (vc, fc)" and "n = length (objects s)"
  shows "\<exists>s'. Shader drv vp fp s = Inr (\<lparr>ID = n + 3\<rparr>, s')
    \<and> map_option sh_source (shader_at s' (n + 1)) = Some vc
    \<and> map_option sh_source (shader_at s' (n + 2)) = Some fc
    \<and> map_option sh_compile_status (shader_at s' (n + 1))
         = Some (compile_ok drv GL_VERTEX_SHADER vc)
    \<and> map_option sh_compile_status (shader_at s' (n + 2))
         = Some (compile_ok drv GL_FRAGMENT_SHADER fc)
    \<and> map_option pr_link_status (program_at s' (n + 3)) = Some (link_ok drv vc fc)
    \<and> list_ex (is_compile_diagnostic ''VERTEX'') (emitted s s')
         = (\<not> compile_ok drv GL_VERTEX_SHADER vc)
    \<and> list_ex (is_compile_diagnostic ''FRAGMENT'') (emitted s s')
         = (\<not> compile_ok drv GL_FRAGMENT_SHADER fc)
    \<and> list_ex is_link_diagnostic (emitted s s') = (\<not> link_ok drv vc fc)
    \<and> (files s vp \<noteq> None \<and> files s fp \<noteq> None \<and> compile_ok drv GL_VERTEX_SHADER vc
         \<and> compile_ok drv GL_FRAGMENT_SHADER fc \<and> link_ok drv vc fc
        \<longrightarrow> emitted s s' = [])"
proof -
  obtain s' where run: "Shader drv vp fp s = Inr (\<lparr>ID = length (objects s) + 3\<rparr>, s')"
    and em: "emitted s s' = diagnostics drv vp fp s"
    and ob: "objects s' = objects s @ built_objects drv vp fp s"
    by (rule Shader_built)
  note ob' = ob [unfolded built_objects_def assms(1) prod.case]
  note sh = shader_at_built [OF ob'] and pr = program_at_built [OF ob']
  have "map_option sh_source (shader_at s' (n + 1)) = Some vc"
    "map_option sh_source (shader_at s' (n + 2)) = Some fc"
    using sh assms by (simp_all add: compiled_def)
  moreover have "map_option sh_compile_status (shader_at s' (n + 1))
      = Some (compile_ok drv GL_VERTEX_SHADER vc)"
    using sh assms by (simp add: compiled_def compile_ok_def)
  moreover have "map_option sh_compile_status (shader_at s' (n + 2))
      = Some (compile_ok drv GL_FRAGMENT_SHADER fc)"
    using sh assms by (simp add: compiled_def compile_ok_def)
  moreover have "map_option pr_link_status (program_at s' (n + 3)) = Some (link_ok drv vc fc)"
    using pr assms by simp
  moreover have "list_ex (is_compile_diagnostic ''VERTEX'') (emitted s s')
      = (\<not> compile_ok drv GL_VERTEX_SHADER vc)"
    using assms by (simp add: em diagnostics_def)
  moreover have "list_ex (is_compile_diagnostic ''FRAGMENT'') (emitted s s')
      = (\<not> compile_ok drv GL_FRAGMENT_SHADER fc)"
    using assms by (simp add: em diagnostics_def)
  moreover have "list_ex is_link_diagnostic (emitted s s') = (\<not> link_ok drv vc fc)"
    using assms by (simp add: em diagnostics_def)
  moreover have "files s vp \<noteq> None \<and> files s fp \<noteq> None \<and> compile_ok drv GL_VERTEX_SHADER vc
      \<and> compile_ok drv GL_FRAGMENT_SHADER fc \<and> link_ok drv vc fc
      \<longrightarrow> emitted s s' = []"
    using assms by (simp add: em diagnostics_def)
  ultimately show ?thesis
    using run assms by blast
qed

text \<open>
  The run shown has a vertex file with a null character in it, followed by an exclamation
  mark that the demonstration compiler would refuse: the driver is handed the text before
  the null character, compiles it, and nothing is printed.
\<close>

theorem build_reports_exactly_the_failures_witness:
  "files demo_start ''nul.vs'' = Some (Regular (''void main(){}'' @ [CHR 0x00] @ ''!''))
   \<and> files demo_start ''f.fs'' = Some (Regular ''void main(){}'')
   \<and> compile_ok demo_driver GL_VERTEX_SHADER ''void main(){}''
   \<and> compile_ok demo_driver GL_FRAGMENT_SHADER ''void main(){}''
   \<and> link_ok demo_driver ''void main(){}'' ''void main(){}''
   \<and> (\<exists>s'. Shader demo_driver ''nul.vs'' ''f.fs'' demo_start = Inr (\<lparr>ID = 3\<rparr>, s')
         \<and> map_option sh_source (shader_at s' 1) = Some ''void main(){}''
         \<and> emitted demo_start s' = [])"
proof -
  have f: "files demo_start ''nul.vs'' = Some (Regular (''void main(){}'' @ [CHR 0x00] @ ''!''))"
    "files demo_start ''f.fs'' = Some (Regular ''void main(){}'')"
    by (simp_all add: demo_start_def)
  from build_reports_exactly_the_failures [OF demo_codes(5) demo_objects, of demo_driver]
  obtain s' where "Shader demo_driver ''nul.vs'' ''f.fs'' demo_start = Inr (\<lparr>ID = 0 + 3\<rparr>, s')"
    and "map_option sh_source (shader_at s' (0 + 1)) = Some ''void main(){}''"
    and "files demo_start ''nul.vs'' \<noteq> None \<and> files demo_start ''f.fs'' \<noteq> None
      \<and> compile_ok demo_driver GL_VERTEX_SHADER ''void main(){}''
      \<and> compile_ok demo_driver GL_FRAGMENT_SHADER ''void main(){}''
      \<and> link_ok demo_driver ''void main(){}'' ''void main(){}''
      \<longrightarrow> emitted demo_start s' = []"
    by blast
  then show ?thesis
    using f by (simp add: demo_compile demo_link)
qed

section \<open>The order of the steps\<close>

text \<open>
  C2. From every state and for every pair of paths the constructor makes the same driver
  calls in the same order, whatever the compile and link statuses are: create, source,
  compile and status query for the vertex shader, the same for the fragment shader, then
  create, attach, attach, link and status query for the program, then the two deletions.
  Only the info-log queries depend on a status. The sources passed are the C strings \<open>vc\<close>
  and \<open>fc\<close> of what was read from the two files. It always returns the handle of the
  program it created.
\<close>

theorem build_runs_every_step:
  assumes "shader_codes vp fp s = (vc, fc)" and "n = length (objects s)"
  shows "\<exists>s'. Shader drv vp fp s = Inr (\<lparr>ID = n + 3\<rparr>, s')
    \<and> filter (\<lambda>c. \<not> is_info_log_query c) (issued s s') =
        [CreateShader GL_VERTEX_SHADER, ShaderSource (n + 1) vc, CompileShader (n + 1),
         GetShaderiv (n + 1),
         CreateShader GL_FRAGMENT_SHADER, ShaderSource (n + 2) fc, CompileShader (n + 2),
         GetShaderiv (n + 2),
         CreateProgram, AttachShader (n + 3) (n + 1), AttachShader (n + 3) (n + 2),
         LinkProgram (n + 3), GetProgramiv (n + 3),
         DeleteShader (n + 1), DeleteShader (n + 2)]
    \<and> map_option pr_attached (program_at s' (n + 3)) = Some [n + 1, n + 2]"
proof -
  obtain s' where run: "Shader drv vp fp s = Inr (\<lparr>ID = length (objects s) + 3\<rparr>, s')"
    and ob: "objects s' = objects s @ built_objects drv vp fp s"
    and cs: "issued s s' = build_calls drv vp fp s"
    by (rule Shader_built)
  note pr = program_at_built [OF ob [unfolded built_objects_def assms(1) prod.case]]
  have "filter (\<lambda>c. \<not> is_info_log_query c) (issued s s') =
        [CreateShader GL_VERTEX_SHADER, ShaderSource (n + 1) vc, CompileShader (n + 1),
         GetShaderiv (n + 1),
         CreateShader GL_FRAGMENT_SHADER, ShaderSource (n + 2) fc, CompileShader (n + 2),
         GetShaderiv (n + 2),
         CreateProgram, AttachShader (n + 3) (n + 1), AttachShader (n + 3) (n + 2),
         LinkProgram (n + 3), GetProgramiv (n + 3),
         DeleteShader (n + 1), DeleteShader (n + 2)]"
    using assms by (simp add: cs build_calls_def is_info_log_query_def)
  moreover have "map_option pr_attached (program_at s' (n + 3)) = Some [n + 1, n + 2]"
    using pr assms by simp
  ultimately show ?thesis
    using run assms by blast
qed

theorem build_runs_every_step_witness:
  "\<exists>s'. Shader demo_driver ''nul.vs'' ''bad.fs'' demo_start = Inr (\<lparr>ID = 3\<rparr>, s')
     \<and> filter (\<lambda>c. \<not> is_info_log_query c) (issued demo_start s') =
        [CreateShader GL_VERTEX_SHADER, ShaderSource 1 ''void main(){}'', CompileShader 1,
         GetShaderiv 1,
         CreateShader GL_FRAGMENT_SHADER, ShaderSource 2 ''void main(){!}'', CompileShader 2,
         GetShaderiv 2,
         CreateProgram, AttachShader 3 1, AttachShader 3 2, LinkProgram 3, GetProgramiv 3,
         DeleteShader 1, DeleteShader 2]"
  using build_runs_every_step [OF demo_codes(6) demo_objects, of demo_driver]
  by auto

section \<open>Files that cannot be read\<close>




text \<open>
  C9. When the vertex file cannot be opened, the fragment file is not opened at all: the
  only path opened is the vertex path. Both sources handed to the driver are empty, and
  the file-read diagnostic is printed exactly once, whether or not the fragment file could
  have been read.
\<close>

theorem vertex_failure_skips_fragment_file:
  assumes "files s vp = None" and "n = length (objects s)"
  shows "\<exists>s'. Shader drv vp fp s = Inr (\<lparr>ID = n + 3\<rparr>, s')
    \<and> opened s' = opened s @ [vp]
    \<and> map_option sh_source (shader_at s' (n + 1)) = Some []
    \<and> map_option sh_source (shader_at s' (n + 2)) = Some []
    \<and> filter is_file_diagnostic (emitted s s') = [FILE_NOT_SUCCESFULLY_READ]"
proof -
  have c: "shader_codes vp fp s = ([], [])"
    using assms(1) by (simp add: shader_codes_def source_codes_def)
  obtain s' where run: "Shader drv vp fp s = Inr (\<lparr>ID = length (objects s) + 3\<rparr>, s')"
    and op: "opened s' = opened s @ (if files s vp = None then [vp] else [vp, fp])"
    and em: "emitted s s' = diagnostics drv vp fp s"
    and ob: "objects s' = objects s @ built_objects drv vp fp s"
    by (rule Shader_built)
  note sh = shader_at_built [OF ob [unfolded built_objects_def c prod.case]]
  have "opened s' = opened s @ [vp]"
    using assms(1) by (simp add: op)
  moreover have "map_option sh_source (shader_at s' (n + 1)) = Some []"
    using sh assms(2) by (simp add: compiled_def)
  moreover have "map_option sh_source (shader_at s' (n + 2)) = Some []"
    using sh assms(2) by (simp add: compiled_def)
  moreover have "filter is_file_diagnostic (emitted s s') = [FILE_NOT_SUCCESFULLY_READ]"
    using assms(1) by (simp add: em diagnostics_def c)
  ultimately show ?thesis
    using run assms(2) by blast
qed

theorem vertex_failure_skips_fragment_file_witness:
  "files demo_start ''nope'' = None
   \<and> files demo_start ''f.fs'' = Some (Regular ''void main(){}'')
   \<and> (\<exists>s'. Shader demo_driver ''nope'' ''f.fs'' demo_start = Inr (\<lparr>ID = 3\<rparr>, s')
         \<and> opened s' = [''nope'']
         \<and> map_option sh_source (shader_at s' 2) = Some []
         \<and> filter is_file_diagnostic (emitted demo_start s') = [FILE_NOT_SUCCESFULLY_READ])"
proof -
  have f: "files demo_start ''nope'' = None"
    by (simp add: demo_start_def)
  have g: "files demo_start ''f.fs'' = Some (Regular ''void main(){}'')"
    "opened demo_start = []"
    by (simp_all add: demo_start_def)
  show ?thesis
    using vertex_failure_skips_fragment_file [OF f demo_objects, of demo_driver "''f.fs''"] f g
    by (auto simp add: numeral_2_eq_2)
qed

section \<open>One stage that does not compile\<close>

text \<open>
  C4, as the code has it. When both files open and exactly one of the two C strings handed
  to the driver fails to compile, exactly one compile diagnostic is printed, tagged with the
  name of the stage that failed, and no file-read diagnostic. The program is linked all the
  same, with the failed stage attached, and the link diagnostic is printed exactly when the
  driver reports that this link failed.
\<close>

theorem one_failing_stage:
  assumes "files s vp \<noteq> None" and "files s fp \<noteq> None"
    and "shader_codes vp fp s = (vc, fc)"
    and "compile_ok drv GL_VERTEX_SHADER vc \<noteq> compile_ok drv GL_FRAGMENT_SHADER fc"
    and "n = length (objects s)"
  shows "\<exists>s'. Shader drv vp fp s = Inr (\<lparr>ID = n + 3\<rparr>, s')
    \<and> map_option sh_source (shader_at s' (n + 1)) = Some vc
    \<and> map_option sh_source (shader_at s' (n + 2)) = Some fc
    \<and> length (filter (\<lambda>d. is_compile_diagnostic ''VERTEX'' d
                           \<or> is_compile_diagnostic ''FRAGMENT'' d) (emitted s s')) = 1
    \<and> list_ex (is_compile_diagnostic ''VERTEX'') (emitted s s')
         = (\<not> compile_ok drv GL_VERTEX_SHADER vc)
    \<and> list_ex (is_compile_diagnostic ''FRAGMENT'') (emitted s s')
         = (\<not> compile_ok drv GL_FRAGMENT_SHADER fc)
    \<and> filter is_file_diagnostic (emitted s s') = []
    \<and> list_ex is_link_diagnostic (emitted s s') = (\<not> link_ok drv vc fc)"
proof -
  note c = assms(3)
  obtain s' where run: "Shader drv vp fp s = Inr (\<lparr>ID = length (objects s) + 3\<rparr>, s')"
    and em: "emitted s s' = diagnostics drv vp fp s"
    and ob: "objects s' = objects s @ built_objects drv vp fp s"
    by (rule Shader_built)
  note sh = shader_at_built [OF ob [unfolded built_objects_def c prod.case]]
  have "map_option sh_source (shader_at s' (n + 1)) = Some vc"
    "map_option sh_source (shader_at s' (n + 2)) = Some fc"
    using sh assms(5) by (simp_all add: compiled_def)
  moreover have "length (filter (\<lambda>d. is_compile_diagnostic ''VERTEX'' d
                           \<or> is_compile_diagnostic ''FRAGMENT'' d) (emitted s s')) = 1"
    using assms(1,2,4) by (auto simp add: em diagnostics_def c)
  moreover have "list_ex (is_compile_diagnostic ''VERTEX'') (emitted s s')
         = (\<not> compile_ok drv GL_VERTEX_SHADER vc)"
    using assms(1,2) by (simp add: em diagnostics_def c)
  moreover have "list_ex (is_compile_diagnostic ''FRAGMENT'') (emitted s s')
         = (\<not> compile_ok drv GL_FRAGMENT_SHADER fc)"
    using assms(1,2) by (simp add: em diagnostics_def c)
  moreover have "filter is_file_diagnostic (emitted s s') = []"
    using assms(1,2) by (simp add: em diagnostics_def c)
  moreover have "list_ex is_link_diagnostic (emitted s s') = (\<not> link_ok drv vc fc)"
    using assms(1,2) by (simp add: em diagnostics_def c)
  ultimately show ?thesis
    using run assms(5) by blast
qed

theorem one_failing_stage_witness:
  "files demo_start ''nul.vs'' \<noteq> None
   \<and> files demo_start ''bad.fs'' \<noteq> None
   \<and> shader_codes ''nul.vs'' ''bad.fs'' demo_start = (''void main(){}'', ''void main(){!}'')
   \<and> compile_ok demo_driver GL_VERTEX_SHADER ''void main(){}''
   \<and> \<not> compile_ok demo_driver GL_FRAGMENT_SHADER ''void main(){!}''
   \<and> (\<exists>s'. Shader demo_driver ''nul.vs'' ''bad.fs'' demo_start = Inr (\<lparr>ID = 3\<rparr>, s')
         \<and> length (filter (\<lambda>d. is_compile_diagnostic ''VERTEX'' d
                                \<or> is_compile_diagnostic ''FRAGMENT'' d)
                      (emitted demo_start s')) = 1
         \<and> list_ex (is_compile_diagnostic ''FRAGMENT'') (emitted demo_start s')
         \<and> list_ex is_link_diagnostic (emitted demo_start s'))"
proof -
  have f: "files demo_start ''nul.vs'' \<noteq> None" "files demo_start ''bad.fs'' \<noteq> None"
    by (simp_all add: demo_start_def)
  have d: "compile_ok demo_driver GL_VERTEX_SHADER ''void main(){}''
      \<noteq> compile_ok demo_driver GL_FRAGMENT_SHADER ''void main(){!}''"
    by (simp add: demo_compile)
  show ?thesis
    using one_failing_stage [OF f demo_codes(6) d demo_objects] f
    by (auto simp add: demo_compile demo_link demo_codes(6))
qed

text \<open>
  C4 as it is stated fails. With the demonstration driver, whose linker refuses a program
  that has a shader attached which did not compile, the vertex file compiles, the fragment
  file has a syntax error, and the pair links once the fragment source is replaced by the
  valid one; yet the constructor prints the fragment compile diagnostic and then a link
  diagnostic.
\<close>

theorem one_failing_stage_still_prints_link_diagnostic:
  "files demo_start ''v.vs'' = Some (Regular ''void main(){}'')
   \<and> files demo_start ''bad.fs'' = Some (Regular ''void main(){!}'')
   \<and> files demo_start ''f.fs'' = Some (Regular ''void main(){}'')
   \<and> compile_ok demo_driver GL_VERTEX_SHADER ''void main(){}''
   \<and> \<not> compile_ok demo_driver GL_FRAGMENT_SHADER ''void main(){!}''
   \<and> compile_ok demo_driver GL_FRAGMENT_SHADER ''void main(){}''
   \<and> link_ok demo_driver ''void main(){}'' ''void main(){}''
   \<and> printed demo_driver ''v.vs'' ''f.fs'' demo_start = []
   \<and> printed demo_driver ''v.vs'' ''bad.fs'' demo_start =
       [''ERROR::SHADER_COMPILATION_ERROR of type: FRAGMENT\<newline>syntax error\<newline> -- --------------------------------------------------- -- \<newline>'',
        ''ERROR::PROGRAM_LINKING_ERROR of type: PROGRAM\<newline>shader not compiled\<newline> -- --------------------------------------------------- -- \<newline>'']
   \<and> list_ex is_link_diagnostic (printed demo_driver ''v.vs'' ''bad.fs'' demo_start)"
proof -
  obtain s' where "Shader demo_driver ''v.vs'' ''bad.fs'' demo_start
      = Inr (\<lparr>ID = length (objects demo_start) + 3\<rparr>, s')"
    and "emitted demo_start s' = diagnostics demo_driver ''v.vs'' ''bad.fs'' demo_start"
    by (rule Shader_built)
  then have bad: "printed demo_driver ''v.vs'' ''bad.fs'' demo_start
      = diagnostics demo_driver ''v.vs'' ''bad.fs'' demo_start"
    by (simp add: printed_def)
  obtain s'' where "Shader demo_driver ''v.vs'' ''f.fs'' demo_start
      = Inr (\<lparr>ID = length (objects demo_start) + 3\<rparr>, s'')"
    and "emitted demo_start s'' = diagnostics demo_driver ''v.vs'' ''f.fs'' demo_start"
    by (rule Shader_built)
  then have good: "printed demo_driver ''v.vs'' ''f.fs'' demo_start
      = diagnostics demo_driver ''v.vs'' ''f.fs'' demo_start"
    by (simp add: printed_def)
  have f: "files demo_start ''v.vs'' = Some (Regular ''void main(){}'')"
    "files demo_start ''bad.fs'' = Some (Regular ''void main(){!}'')"
    "files demo_start ''f.fs'' = Some (Regular ''void main(){}'')"
    by (simp_all add: demo_start_def)
  have lg: "snd (compile demo_driver GL_FRAGMENT_SHADER ''void main(){!}'') = ''syntax error''"
    "fst (snd (link_result demo_driver ''void main(){}'' ''void main(){!}''))
       = ''shader not compiled''"
    by (simp_all add: demo_driver_def link_result_def compiled_def)
  show ?thesis
    by (simp add: f good bad diagnostics_def demo_codes demo_compile demo_link lg
        compile_tag_def link_tag_def separator_def endl_def is_link_diagnostic_def)
qed

section \<open>Releasing the two shader objects\<close>

text \<open>
  C7. After every run of the constructor, whatever the compile and link statuses were, the
  vertex and the fragment shader object it created are marked for deletion in the driver's
  state. \<^verbatim>\<open>glDeleteShader\<close> is called once for each, and both calls come after the
  call of \<^verbatim>\<open>glLinkProgram\<close>.
\<close>

theorem shaders_marked_for_deletion:
  assumes "n = length (objects s)"
  shows "\<exists>s'. Shader drv vp fp s = Inr (\<lparr>ID = n + 3\<rparr>, s')
    \<and> map_option sh_type (shader_at s' (n + 1)) = Some GL_VERTEX_SHADER
    \<and> map_option sh_delete_status (shader_at s' (n + 1)) = Some True
    \<and> map_option sh_type (shader_at s' (n + 2)) = Some GL_FRAGMENT_SHADER
    \<and> map_option sh_delete_status (shader_at s' (n + 2)) = Some True
    \<and> filter is_delete (issued s s') = [DeleteShader (n + 1), DeleteShader (n + 2)]
    \<and> filter is_delete (after_link (n + 3) (issued s s'))
         = [DeleteShader (n + 1), DeleteShader (n + 2)]"
proof -
  obtain vc fc where c: "shader_codes vp fp s = (vc, fc)"
    by (cases "shader_codes vp fp s")
  obtain s' where run: "Shader drv vp fp s = Inr (\<lparr>ID = length (objects s) + 3\<rparr>, s')"
    and ob: "objects s' = objects s @ built_objects drv vp fp s"
    and cs: "issued s s' = build_calls drv vp fp s"
    by (rule Shader_built)
  note sh = shader_at_built [OF ob [unfolded built_objects_def c prod.case]]
  have "map_option sh_type (shader_at s' (n + 1)) = Some GL_VERTEX_SHADER"
    "map_option sh_delete_status (shader_at s' (n + 1)) = Some True"
    "map_option sh_type (shader_at s' (n + 2)) = Some GL_FRAGMENT_SHADER"
    "map_option sh_delete_status (shader_at s' (n + 2)) = Some True"
    using sh assms by (simp_all add: compiled_def)
  moreover have "filter is_delete (issued s s') = [DeleteShader (n + 1), DeleteShader (n + 2)]"
    using assms by (simp add: cs build_calls_def c is_delete_def)
  moreover have "filter is_delete (after_link (n + 3) (issued s s'))
         = [DeleteShader (n + 1), DeleteShader (n + 2)]"
    using assms by (simp add: cs build_calls_def c is_delete_def after_link_def)
  ultimately show ?thesis
    using run assms by blast
qed

theorem shaders_marked_for_deletion_witness:
  "\<exists>s'. Shader demo_driver ''v.vs'' ''bad.fs'' demo_start = Inr (\<lparr>ID = 3\<rparr>, s')
     \<and> map_option sh_delete_status (shader_at s' 1) = Some True
     \<and> map_option sh_delete_status (shader_at s' 2) = Some True
     \<and> filter is_delete (after_link 3 (issued demo_start s'))
          = [DeleteShader 1, DeleteShader 2]"
  using shaders_marked_for_deletion [OF demo_objects, of demo_driver "''v.vs''" "''bad.fs''"]
  by (auto simp add: numeral_2_eq_2)

section \<open>The uniform setters\<close>

subsection \<open>A write to the bound program\<close>

lemma lookup_called [simp]: "lookup (called c s) n = lookup s n"
  by (simp add: lookup_def called_def)

lemma called_fields [simp]:
  "files (called c s) = files s" "opened (called c s) = opened s" "out (called c s) = out s"
  "objects (called c s) = objects s" "current_program (called c s) = current_program s"
  "history (called c s) = history s @ [c]"
  by (simp_all add: called_def)

lemma lookup_positive: "lookup s p = Some ob \<Longrightarrow> 0 < p \<and> p \<le> length (objects s)"
  by (simp add: lookup_def split: if_splits)

lemma put_fields [simp]:
  "files (put p ob s) = files s" "opened (put p ob s) = opened s" "out (put p ob s) = out s"
  "current_program (put p ob s) = current_program s" "history (put p ob s) = history s"
  "length (objects (put p ob s)) = length (objects s)"
  by (simp_all add: put_def)

lemma put_called: "put p ob (called c s) = called c (put p ob s)"
  by (simp add: put_def called_def)

lemma lookup_put_same: "lookup s p = Some ob \<Longrightarrow> lookup (put p ob' s) p = Some ob'"
  by (simp add: lookup_def put_def split: if_splits)

lemma lookup_put_other: "0 < p \<Longrightarrow> n \<noteq> p \<Longrightarrow> lookup (put p ob' s) n = lookup s n"
proof (cases "0 < n")
  case True
  assume "0 < p" and "n \<noteq> p"
  with True have "p - 1 \<noteq> n - 1" by arith
  then show ?thesis
    by (simp add: lookup_def put_def)
next
  case False
  then show ?thesis by (simp add: lookup_def put_def)
qed

lemma write_uniform_written:
  "lookup s (current_program s) = Some (ProgramObj po) \<Longrightarrow> 0 \<le> loc \<Longrightarrow>
   loc < int (length (pr_uniforms po)) \<Longrightarrow>
   write_uniform loc v s =
     put (current_program s)
       (ProgramObj (po\<lparr>pr_uniforms :=
          (pr_uniforms po)[nat loc := (fst (pr_uniforms po ! nat loc), v)]\<rparr>)) s"
  by (simp add: write_uniform_def)

lemma write_uniform_ignored:
  "\<not> (\<exists>po. lookup s (current_program s) = Some (ProgramObj po) \<and> 0 \<le> loc
          \<and> loc < int (length (pr_uniforms po))) \<Longrightarrow>
   write_uniform loc v s = s"
proof (cases "lookup s (current_program s)")
  case None
  then show ?thesis by (simp add: write_uniform_def)
next
  case (Some ob)
  assume a: "\<not> (\<exists>po. lookup s (current_program s) = Some (ProgramObj po) \<and> 0 \<le> loc
          \<and> loc < int (length (pr_uniforms po)))"
  show ?thesis
  proof (cases ob)
    case (ProgramObj po)
    with a Some have "\<not> (0 \<le> loc \<and> loc < int (length (pr_uniforms po)))" by simp
    then show ?thesis using Some ProgramObj by (auto simp add: write_uniform_def)
  next
    case (ShaderObj sh)
    then show ?thesis using Some by (simp add: write_uniform_def)
  next
    case Freed
    then show ?thesis using Some by (simp add: write_uniform_def)
  qed
qed

lemma write_uniform_cases:
  obtains (written) po where "lookup s (current_program s) = Some (ProgramObj po)"
      "0 \<le> loc" "loc < int (length (pr_uniforms po))"
      "write_uniform loc v s =
         put (current_program s)
           (ProgramObj (po\<lparr>pr_uniforms :=
              (pr_uniforms po)[nat loc := (fst (pr_uniforms po ! nat loc), v)]\<rparr>)) s"
  | (ignored)
      "\<not> (\<exists>po. lookup s (current_program s) = Some (ProgramObj po) \<and> 0 \<le> loc
            \<and> loc < int (length (pr_uniforms po)))"
      "write_uniform loc v s = s"
proof (cases "\<exists>po. lookup s (current_program s) = Some (ProgramObj po) \<and> 0 \<le> loc
            \<and> loc < int (length (pr_uniforms po))")
  case True
  then obtain po where p: "lookup s (current_program s) = Some (ProgramObj po)"
    "0 \<le> loc" "loc < int (length (pr_uniforms po))" by blast
  from written [OF p write_uniform_written [OF p]] show ?thesis .
next
  case False
  from ignored [OF False write_uniform_ignored [OF False]] show ?thesis .
qed

lemma write_uniform_called:
  "write_uniform loc v (called c s) = called c (write_uniform loc v s)"
proof (cases rule: write_uniform_cases [of s loc v])
  case (written po)
  then have "lookup (called c s) (current_program (called c s)) = Some (ProgramObj po)"
    by simp
  from write_uniform_written [OF this written(2,3)] written(4) show ?thesis
    by (simp add: put_called)
next
  case ignored
  then have "\<not> (\<exists>po. lookup (called c s) (current_program (called c s)) = Some (ProgramObj po)
          \<and> 0 \<le> loc \<and> loc < int (length (pr_uniforms po)))"
    by simp
  from write_uniform_ignored [OF this] ignored(2) show ?thesis by simp
qed

lemma write_uniform_frame:
  "files (write_uniform loc v s) = files s
   \<and> opened (write_uniform loc v s) = opened s
   \<and> out (write_uniform loc v s) = out s
   \<and> current_program (write_uniform loc v s) = current_program s
   \<and> history (write_uniform loc v s) = history s
   \<and> length (objects (write_uniform loc v s)) = length (objects s)"
  by (cases rule: write_uniform_cases [of s loc v]) simp_all

lemma write_uniform_fields [simp]:
  "files (write_uniform loc v s) = files s"
  "opened (write_uniform loc v s) = opened s"
  "out (write_uniform loc v s) = out s"
  "current_program (write_uniform loc v s) = current_program s"
  "history (write_uniform loc v s) = history s"
  "length (objects (write_uniform loc v s)) = length (objects s)"
  using write_uniform_frame [of loc v s] by simp_all

lemma write_uniform_elsewhere:
  "n \<noteq> current_program s \<Longrightarrow> lookup (write_uniform loc v s) n = lookup s n"
proof (cases rule: write_uniform_cases [of s loc v])
  case (written po)
  assume "n \<noteq> current_program s"
  with lookup_positive [OF written(1)] show ?thesis
    by (simp add: written(4) lookup_put_other)
next
  case ignored
  then show ?thesis by simp
qed

lemma write_uniform_here:
  "lookup s (current_program s) = Some (ProgramObj po) \<Longrightarrow> 0 \<le> loc \<Longrightarrow>
   loc < int (length (pr_uniforms po)) \<Longrightarrow>
   lookup (write_uniform loc v s) (current_program s)
     = Some (ProgramObj (po\<lparr>pr_uniforms :=
         (pr_uniforms po)[nat loc := (fst (pr_uniforms po ! nat loc), v)]\<rparr>))"
  by (simp add: write_uniform_written lookup_put_same)

lemma write_uniform_discarded:
  "loc = - 1 \<Longrightarrow> write_uniform loc v s = s"
  by (rule write_uniform_ignored) simp

lemma write_uniform_changes:
  "lookup (write_uniform loc v s) (current_program s) = lookup s (current_program s)
   \<or> (\<exists>po. lookup s (current_program s) = Some (ProgramObj po)
         \<and> lookup (write_uniform loc v s) (current_program s)
             = Some (ProgramObj (po\<lparr>pr_uniforms :=
                 (pr_uniforms po)[nat loc := (fst (pr_uniforms po ! nat loc), v)]\<rparr>)))"
proof (cases rule: write_uniform_cases [of s loc v])
  case (written po)
  then show ?thesis
    using write_uniform_here [OF written(1,2,3), of v] by blast
next
  case ignored
  then show ?thesis by simp
qed

lemma location_of_absent:
  "name \<notin> fst ` set us \<Longrightarrow> location_of name us i = - 1"
  by (induction us arbitrary: i) auto

lemma location_of_present:
  "name \<in> fst ` set us \<Longrightarrow>
   i \<le> location_of name us i \<and> location_of name us i < i + int (length us)
   \<and> fst (us ! nat (location_of name us i - i)) = name"
proof (induction us arbitrary: i)
  case Nil
  then show ?case by simp
next
  case (Cons u us)
  show ?case
  proof (cases "fst u = name")
    case True
    then show ?thesis by simp
  next
    case False
    then have "name \<in> fst ` set us" using Cons.prems by auto
    note ih = Cons.IH [OF this, of "i + 1"]
    define l where "l = location_of name us (i + 1)"
    have l: "i + 1 \<le> l" "l < i + 1 + int (length us)" "fst (us ! nat (l - (i + 1))) = name"
      using ih by (simp_all add: l_def)
    have "nat (l - i) = Suc (nat (l - (i + 1)))"
      using l(1) by arith
    then have "fst ((u # us) ! nat (l - i)) = name"
      using l(3) by simp
    then show ?thesis
      using False l(1,2) by (simp add: l_def)
  qed
qed

lemma location_of_names:
  "map fst us' = map fst us \<Longrightarrow> location_of name us' i = location_of name us i"
proof (induction us arbitrary: us' i)
  case Nil
  then show ?case by simp
next
  case (Cons u us)
  from Cons.prems obtain u' vs where us': "us' = u' # vs"
    by (cases us') simp_all
  with Cons.prems have h: "fst u' = fst u" and t: "map fst vs = map fst us"
    by simp_all
  from Cons.IH [OF t] have "location_of name vs (i + 1) = location_of name us (i + 1)" .
  then show ?case
    by (simp add: us' h)
qed

lemma setBool_eq:
  "setBool this name b s =
     called (Uniform1i (fst (glGetUniformLocation (ID this) (c_str name) s))
               (if b then 1 else 0))
       (called (GetUniformLocation (ID this) (c_str name))
          (write_uniform (fst (glGetUniformLocation (ID this) (c_str name) s))
             (UInt (if b then 1 else 0)) s))"
  by (simp add: setBool_def glUniform1i_def glGetUniformLocation_def write_uniform_called)

lemma setInt_eq:
  "setInt this name v s =
     called (Uniform1i (fst (glGetUniformLocation (ID this) (c_str name) s)) v)
       (called (GetUniformLocation (ID this) (c_str name))
          (write_uniform (fst (glGetUniformLocation (ID this) (c_str name) s)) (UInt v) s))"
  by (simp add: setInt_def glUniform1i_def glGetUniformLocation_def write_uniform_called)

lemma setFloat_eq:
  "setFloat this name v s =
     called (Uniform1f (fst (glGetUniformLocation (ID this) (c_str name) s)) v)
       (called (GetUniformLocation (ID this) (c_str name))
          (write_uniform (fst (glGetUniformLocation (ID this) (c_str name) s)) (UFloat v) s))"
  by (simp add: setFloat_def glUniform1f_def glGetUniformLocation_def write_uniform_called)

lemma location_inactive:
  "name \<notin> set (active_uniforms s p) \<Longrightarrow> fst (glGetUniformLocation p name s) = - 1"
  by (auto simp add: active_uniforms_def glGetUniformLocation_def location_of_absent
      split: option.splits gl_object.splits)

lemma location_active:
  assumes "lookup s p = Some (ProgramObj po)" and "name \<in> set (active_uniforms s p)"
  shows "0 \<le> fst (glGetUniformLocation p name s)"
    and "fst (glGetUniformLocation p name s) < int (length (pr_uniforms po))"
    and "fst (pr_uniforms po ! nat (fst (glGetUniformLocation p name s))) = name"
proof -
  have "name \<in> fst ` set (pr_uniforms po)"
    using assms by (simp add: active_uniforms_def)
  from location_of_present [OF this, of 0] assms(1)
  show "0 \<le> fst (glGetUniformLocation p name s)"
    and "fst (glGetUniformLocation p name s) < int (length (pr_uniforms po))"
    and "fst (pr_uniforms po ! nat (fst (glGetUniformLocation p name s))) = name"
    by (simp_all add: glGetUniformLocation_def)
qed


lemma glGetUniform_called [simp]: "glGetUniform p loc (called c s) = glGetUniform p loc s"
  by (simp add: glGetUniform_def)

lemma location_called [simp]:
  "fst (glGetUniformLocation p name (called c s)) = fst (glGetUniformLocation p name s)"
  by (simp add: glGetUniformLocation_def)

lemma active_uniforms_called [simp]:
  "active_uniforms (called c s) p = active_uniforms s p"
  by (simp add: active_uniforms_def)

subsection \<open>The states reached by the demonstration runs\<close>

lemma demo_compile_result:
  "compile demo_driver t ''void main(){}'' = (True, [])"
  "compile demo_driver t ''void main(){!}'' = (False, ''syntax error'')"
  "compile demo_driver t [] = (False, ''syntax error'')"
  by (simp_all add: demo_driver_def)

lemma demo_link_result:
  "link demo_driver
     [\<lparr>sh_type = GL_VERTEX_SHADER, sh_source = ''void main(){}'', sh_compile_status = True,
        sh_info_log = [], sh_delete_status = False\<rparr>,
      \<lparr>sh_type = GL_FRAGMENT_SHADER, sh_source = ''void main(){}'', sh_compile_status = True,
        sh_info_log = [], sh_delete_status = False\<rparr>]
   = (True, [], [''u_name'', ''other''])"
  by (simp add: demo_driver_def)

lemma demo_built_codes:
  "shader_codes ''v.vs'' ''f.fs'' demo_built = (''void main(){}'', ''void main(){}'')"
  by (simp add: shader_codes_def source_codes_def rdbuf_def c_str_def demo_built_def
      demo_start_def)

lemma demo_first_build:
  "Shader demo_driver ''v.vs'' ''f.fs'' demo_start = Inr (\<lparr>ID = 3\<rparr>, demo_built)"
  using Shader_run [OF demo_codes(1) demo_compile_result(1) demo_compile_result(1)
      demo_link_result]
  by (simp add: demo_built_def demo_start_def)

lemma demo_second_build:
  "Shader demo_driver ''v.vs'' ''f.fs'' demo_built = Inr (\<lparr>ID = 6\<rparr>, demo_built_twice)"
  using Shader_run [OF demo_built_codes demo_compile_result(1) demo_compile_result(1)
      demo_link_result]
  by (simp add: demo_built_twice_def demo_built_def demo_start_def)

lemma demo_built_program:
  "lookup demo_built 3 = Some (ProgramObj \<lparr>pr_attached = [1, 2], pr_link_status = True,
      pr_info_log = [], pr_uniforms = [(''u_name'', UInt 0), (''other'', UInt 0)]\<rparr>)"
  by (simp add: lookup_def demo_built_def)

lemma demo_built_twice_programs:
  "lookup demo_built_twice 3 = Some (ProgramObj \<lparr>pr_attached = [1, 2], pr_link_status = True,
      pr_info_log = [], pr_uniforms = [(''u_name'', UInt 0), (''other'', UInt 0)]\<rparr>)"
  "lookup demo_built_twice 6 = Some (ProgramObj \<lparr>pr_attached = [4, 5], pr_link_status = True,
      pr_info_log = [], pr_uniforms = [(''u_name'', UInt 0), (''other'', UInt 0)]\<rparr>)"
  by (simp_all add: lookup_def demo_built_twice_def demo_built_def)

lemma lookup_bound [simp]: "lookup (s\<lparr>current_program := p\<rparr>) n = lookup s n"
  by (simp add: lookup_def)

lemma use_binds:
  "lookup s (ID this) = Some (ProgramObj po) \<Longrightarrow> pr_link_status po \<Longrightarrow>
   use this s = called (UseProgram (ID this)) (s\<lparr>current_program := ID this\<rparr>)"
  by (simp add: use_def glUseProgram_def)

lemma demo_bound_eq:
  "demo_bound = called (UseProgram 3) (demo_built_twice\<lparr>current_program := 3\<rparr>)"
  using use_binds [of demo_built_twice "\<lparr>ID = 3\<rparr>"] demo_built_twice_programs(1)
  by (simp add: demo_bound_def)

lemma demo_bound_programs:
  "current_program demo_bound = 3"
  "lookup demo_bound 3 = Some (ProgramObj \<lparr>pr_attached = [1, 2], pr_link_status = True,
      pr_info_log = [], pr_uniforms = [(''u_name'', UInt 0), (''other'', UInt 0)]\<rparr>)"
  "lookup demo_bound 6 = Some (ProgramObj \<lparr>pr_attached = [4, 5], pr_link_status = True,
      pr_info_log = [], pr_uniforms = [(''u_name'', UInt 0), (''other'', UInt 0)]\<rparr>)"
  by (simp_all add: demo_bound_eq demo_built_twice_programs)

subsection \<open>Lookup on every call; a missing name\<close>



text \<open>
  C10. For every uniform name and boolean \<open>b\<close>, \<^verbatim>\<open>setBool(name, b)\<close> does what
  \<^verbatim>\<open>setInt(name, 1)\<close> does when \<open>b\<close> is true and what \<^verbatim>\<open>setInt(name, 0)\<close> does when it is
  false: the same location lookup and the same integer write, hence the same state, driver
  calls included.
\<close>

theorem setBool_is_setInt:
  "setBool this name b s = setInt this name (if b then 1 else 0) s"
  by (simp add: setBool_def setInt_def)

subsection \<open>Reading a uniform back\<close>

lemma setInt_read_back:
  assumes "c_str name \<in> set (active_uniforms s (ID this))" and "current_program s = ID this"
  shows "glGetUniform (ID this)
           (fst (glGetUniformLocation (ID this) (c_str name) (setInt this name v s)))
           (setInt this name v s) = Some (UInt v)"
proof -
  have "\<exists>po. lookup s (ID this) = Some (ProgramObj po)"
  proof (rule ccontr)
    assume "\<nexists>po. lookup s (ID this) = Some (ProgramObj po)"
    then have "active_uniforms s (ID this) = []"
      by (auto simp add: active_uniforms_def split: option.splits gl_object.splits)
    with assms(1) show False by simp
  qed
  then obtain po where po: "lookup s (ID this) = Some (ProgramObj po)" ..
  define loc where "loc = fst (glGetUniformLocation (ID this) (c_str name) s)"
  note l = location_active [OF po assms(1), folded loc_def]
  define po' where "po' = po\<lparr>pr_uniforms :=
      (pr_uniforms po)[nat loc := (fst (pr_uniforms po ! nat loc), UInt v)]\<rparr>"
  have w: "lookup (write_uniform loc (UInt v) s) (ID this) = Some (ProgramObj po')"
    using write_uniform_here [of s po loc "UInt v"] po l assms(2) by (simp add: po'_def)
  have names: "map fst (pr_uniforms po') = map fst (pr_uniforms po)"
    using l by (simp add: po'_def map_update list_update_same_conv)
  have loc': "fst (glGetUniformLocation (ID this) (c_str name)
      (write_uniform loc (UInt v) s)) = loc"
    using w po location_of_names [OF names]
    by (simp add: glGetUniformLocation_def loc_def)
  have "glGetUniform (ID this) loc (write_uniform loc (UInt v) s) = Some (UInt v)"
    using w l by (simp add: glGetUniform_def po'_def)
  then show ?thesis
    by (simp add: setInt_eq loc' flip: loc_def)
qed

text \<open>
  C6, as the code has it. When \<^verbatim>\<open>u_name\<close> is an active uniform of the program \<open>ID\<close> and
  that program is the one currently bound, \<^verbatim>\<open>setInt("u_name", 5)\<close> followed by a query of
  the uniform's value in the program \<open>ID\<close> gives 5.
\<close>

theorem setInt_then_read_back:
  assumes "''u_name'' \<in> set (active_uniforms s (ID this))"
    and "current_program s = ID this"
    and "s' = setInt this ''u_name'' 5 s"
  shows "glGetUniform (ID this) (fst (glGetUniformLocation (ID this) ''u_name'' s')) s'
           = Some (UInt 5)"
proof -
  have "c_str ''u_name'' \<in> set (active_uniforms s (ID this))"
    using assms(1) by simp
  from setInt_read_back [OF this assms(2), of 5] assms(3) show ?thesis
    by simp
qed

theorem setInt_then_read_back_witness:
  "''u_name'' \<in> set (active_uniforms (use \<lparr>ID = 3\<rparr> demo_built) 3)
   \<and> current_program (use \<lparr>ID = 3\<rparr> demo_built) = 3
   \<and> glGetUniform 3
        (fst (glGetUniformLocation 3 ''u_name''
           (setInt \<lparr>ID = 3\<rparr> ''u_name'' 5 (use \<lparr>ID = 3\<rparr> demo_built))))
        (setInt \<lparr>ID = 3\<rparr> ''u_name'' 5 (use \<lparr>ID = 3\<rparr> demo_built)) = Some (UInt 5)"
proof -
  have u: "use \<lparr>ID = 3\<rparr> demo_built
      = called (UseProgram 3) (demo_built\<lparr>current_program := 3\<rparr>)"
    using use_binds [of demo_built "\<lparr>ID = 3\<rparr>"] demo_built_program by simp
  have a: "''u_name'' \<in> set (active_uniforms (use \<lparr>ID = 3\<rparr> demo_built) (ID \<lparr>ID = 3\<rparr>))"
    using demo_built_program by (simp add: u active_uniforms_def)
  have c: "current_program (use \<lparr>ID = 3\<rparr> demo_built) = ID \<lparr>ID = 3\<rparr>"
    by (simp add: u)
  show ?thesis
    using setInt_then_read_back [OF a c refl] a c by simp
qed

text \<open>
  C6 as it is stated fails: it asks nothing about the binding. The program the
  constructor has just built from the two valid files is linked and has \<^verbatim>\<open>u_name\<close>
  active, but the constructor does not bind it; \<^verbatim>\<open>setInt("u_name", 5)\<close> without a call of
  \<^verbatim>\<open>use\<close> before it leaves the value at 0.
\<close>

theorem setInt_without_use_counterexample:
  "Shader demo_driver ''v.vs'' ''f.fs'' demo_start = Inr (\<lparr>ID = 3\<rparr>, demo_built)
   \<and> map_option pr_link_status (program_at demo_built 3) = Some True
   \<and> ''u_name'' \<in> set (active_uniforms demo_built 3)
   \<and> fst (glGetUniformLocation 3 ''u_name'' (setInt \<lparr>ID = 3\<rparr> ''u_name'' 5 demo_built)) = 0
   \<and> glGetUniform 3 0 (setInt \<lparr>ID = 3\<rparr> ''u_name'' 5 demo_built) = Some (UInt 0)
   \<and> glGetUniform 3 0 (setInt \<lparr>ID = 3\<rparr> ''u_name'' 5 demo_built) \<noteq> Some (UInt 5)"
proof -
  have "lookup demo_built (current_program demo_built) = None"
    by (simp add: lookup_def demo_built_def)
  then have w: "write_uniform loc v demo_built = demo_built" for loc v
    by (intro write_uniform_ignored) simp
  have l: "fst (glGetUniformLocation 3 ''u_name'' demo_built) = 0"
    using demo_built_program by (simp add: glGetUniformLocation_def)
  have g: "glGetUniform 3 0 demo_built = Some (UInt 0)"
    using demo_built_program by (simp add: glGetUniform_def)
  show ?thesis
    using demo_built_program
    by (simp add: demo_first_build setInt_eq w l g program_at_def active_uniforms_def)
qed

subsection \<open>What a call can change\<close>

lemma fst_invoke: "fst (invoke m c) = fst c"
  by (cases m; cases c) simp_all

lemma fst_invoke_all: "fst (invoke_all ms c) = fst c"
  by (induction ms arbitrary: c) (simp_all add: fst_invoke)

lemma use_objects: "objects (use this s) = objects s"
  by (simp add: use_def glUseProgram_def split: option.splits gl_object.splits)

lemma invoke_setter:
  assumes "uniform_write m = Some (name, v)"
  obtains c where
    "invoke m (this, s) =
       (this, called c (called (GetUniformLocation (ID this) (c_str name))
          (write_uniform (fst (glGetUniformLocation (ID this) (c_str name) s)) v s)))"
proof (cases m)
  case Use
  with assms show ?thesis by simp
next
  case (SetBool x b)
  with assms that show ?thesis by (simp add: setBool_eq)
next
  case (SetInt x i)
  with assms that show ?thesis by (simp add: setInt_eq)
next
  case (SetFloat x f)
  with assms that show ?thesis by (simp add: setFloat_eq)
qed

text \<open>
  C8, as the code has it. No sequence of \<^verbatim>\<open>use\<close>, \<^verbatim>\<open>setBool\<close>, \<^verbatim>\<open>setInt\<close> and
  \<^verbatim>\<open>setFloat\<close> calls changes the stored handle, and \<^verbatim>\<open>use\<close> changes no driver object.
  A uniform-set call with the value \<open>v\<close> leaves the files, the output, the binding and
  every object other than the currently bound program as they were. With \<open>loc\<close> the
  location that the C string of the name has in the program \<open>ID\<close>: when a program is
  bound and \<open>loc\<close> is a location of it, that program's uniform at \<open>loc\<close> takes the value
  \<open>v\<close> and nothing else of it changes; in every other case, and so whenever the name is
  no active uniform of the program \<open>ID\<close>, no driver object changes at all. The uniform
  written is the named uniform of the program \<open>ID\<close> when the program \<open>ID\<close> is the one
  bound.
\<close>

theorem member_calls_frame:
  assumes "uniform_write m = Some (name, v)"
    and "loc = fst (glGetUniformLocation (ID this) (c_str name) s)"
    and "s' = snd (invoke m (this, s))"
  shows "fst (invoke_all ms (this, s)) = this
    \<and> objects (use this s) = objects s
    \<and> files s' = files s \<and> opened s' = opened s \<and> out s' = out s
    \<and> current_program s' = current_program s
    \<and> length (objects s') = length (objects s)
    \<and> (\<forall>n. n \<noteq> current_program s \<longrightarrow> lookup s' n = lookup s n)
    \<and> (\<forall>po. lookup s (current_program s) = Some (ProgramObj po)
            \<and> 0 \<le> loc \<and> loc < int (length (pr_uniforms po)) \<longrightarrow>
          lookup s' (current_program s)
            = Some (ProgramObj (po\<lparr>pr_uniforms :=
                (pr_uniforms po)[nat loc := (fst (pr_uniforms po ! nat loc), v)]\<rparr>)))
    \<and> (\<not> (\<exists>po. lookup s (current_program s) = Some (ProgramObj po)
              \<and> 0 \<le> loc \<and> loc < int (length (pr_uniforms po))) \<longrightarrow>
          objects s' = objects s)
    \<and> (c_str name \<notin> set (active_uniforms s (ID this)) \<longrightarrow>
          loc = - 1 \<and> objects s' = objects s)
    \<and> (current_program s = ID this \<and> c_str name \<in> set (active_uniforms s (ID this)) \<longrightarrow>
          (\<exists>po. lookup s (ID this) = Some (ProgramObj po)
             \<and> 0 \<le> loc \<and> loc < int (length (pr_uniforms po))
             \<and> fst (pr_uniforms po ! nat loc) = c_str name))"
proof -
  obtain c where "invoke m (this, s) =
       (this, called c (called (GetUniformLocation (ID this) (c_str name))
          (write_uniform (fst (glGetUniformLocation (ID this) (c_str name) s)) v s)))"
    by (rule invoke_setter [OF assms(1)])
  then have s': "s' = called c (called (GetUniformLocation (ID this) (c_str name))
      (write_uniform loc v s))"
    using assms(2,3) by simp
  have "fst (invoke_all ms (this, s)) = this"
    by (simp add: fst_invoke_all)
  moreover have "objects (use this s) = objects s"
    by (rule use_objects)
  moreover have "files s' = files s \<and> opened s' = opened s \<and> out s' = out s
      \<and> current_program s' = current_program s \<and> length (objects s') = length (objects s)"
    by (simp add: s')
  moreover have "\<forall>n. n \<noteq> current_program s \<longrightarrow> lookup s' n = lookup s n"
    by (simp add: s' write_uniform_elsewhere)
  moreover have "\<forall>po. lookup s (current_program s) = Some (ProgramObj po)
            \<and> 0 \<le> loc \<and> loc < int (length (pr_uniforms po)) \<longrightarrow>
          lookup s' (current_program s)
            = Some (ProgramObj (po\<lparr>pr_uniforms :=
                (pr_uniforms po)[nat loc := (fst (pr_uniforms po ! nat loc), v)]\<rparr>))"
    by (simp add: s' write_uniform_here)
  moreover have ign: "objects s' = objects s"
    if "\<not> (\<exists>po. lookup s (current_program s) = Some (ProgramObj po)
              \<and> 0 \<le> loc \<and> loc < int (length (pr_uniforms po)))"
    using write_uniform_ignored [OF that, of v] by (simp add: s')
  moreover have "loc = - 1 \<and> objects s' = objects s"
    if "c_str name \<notin> set (active_uniforms s (ID this))"
  proof -
    have "loc = - 1"
      using location_inactive [OF that] assms(2) by simp
    then show ?thesis
      by (simp add: s' write_uniform_discarded)
  qed
  moreover have "\<exists>po. lookup s (ID this) = Some (ProgramObj po)
             \<and> 0 \<le> loc \<and> loc < int (length (pr_uniforms po))
             \<and> fst (pr_uniforms po ! nat loc) = c_str name"
    if "current_program s = ID this \<and> c_str name \<in> set (active_uniforms s (ID this))"
  proof -
    have "\<exists>po. lookup s (ID this) = Some (ProgramObj po)"
    proof (rule ccontr)
      assume "\<nexists>po. lookup s (ID this) = Some (ProgramObj po)"
      then have "active_uniforms s (ID this) = []"
        by (auto simp add: active_uniforms_def split: option.splits gl_object.splits)
      with that show False by simp
    qed
    then obtain po where po: "lookup s (ID this) = Some (ProgramObj po)" ..
    from location_active [OF po] that assms(2) po show ?thesis by simp
  qed
  ultimately show ?thesis by blast
qed

text \<open>
  Two runs are shown, both with program 3 bound: a write to its active uniform
  \<^verbatim>\<open>other\<close>, which changes that uniform only, and a write to the name \<^verbatim>\<open>missing\<close>, which
  changes no object.
\<close>

theorem member_calls_frame_witness:
  "uniform_write (SetInt ''other'' 7) = Some (''other'', UInt 7)
   \<and> fst (glGetUniformLocation 3 ''other'' demo_bound) = 1
   \<and> current_program demo_bound = 3
   \<and> ''other'' \<in> set (active_uniforms demo_bound 3)
   \<and> 6 \<noteq> current_program demo_bound
   \<and> fst (invoke_all [Use, SetInt ''other'' 7] (\<lparr>ID = 3\<rparr>, demo_bound)) = \<lparr>ID = 3\<rparr>
   \<and> current_program (setInt \<lparr>ID = 3\<rparr> ''other'' 7 demo_bound) = 3
   \<and> lookup (setInt \<lparr>ID = 3\<rparr> ''other'' 7 demo_bound) 6 = lookup demo_bound 6
   \<and> lookup (setInt \<lparr>ID = 3\<rparr> ''other'' 7 demo_bound) 3
       = Some (ProgramObj \<lparr>pr_attached = [1, 2], pr_link_status = True, pr_info_log = [],
           pr_uniforms = [(''u_name'', UInt 0), (''other'', UInt 7)]\<rparr>)
   \<and> uniform_write (SetFloat ''missing'' 2) = Some (''missing'', UFloat 2)
   \<and> ''missing'' \<notin> set (active_uniforms demo_bound 3)
   \<and> objects (setFloat \<lparr>ID = 3\<rparr> ''missing'' 2 demo_bound) = objects demo_bound"
proof -
  have n: "uniform_write (SetInt ''other'' 7) = Some (''other'', UInt 7)"
    by simp
  have l: "1 = fst (glGetUniformLocation (ID \<lparr>ID = 3\<rparr>) (c_str ''other'') demo_bound)"
    using demo_bound_programs(2) by (simp add: glGetUniformLocation_def)
  have a: "''other'' \<in> set (active_uniforms demo_bound 3)"
    "''missing'' \<notin> set (active_uniforms demo_bound 3)"
    using demo_bound_programs(2) by (simp_all add: active_uniforms_def)
  have s: "setInt \<lparr>ID = 3\<rparr> ''other'' 7 demo_bound
      = snd (invoke (SetInt ''other'' 7) (\<lparr>ID = 3\<rparr>, demo_bound))"
    by simp
  from member_calls_frame [OF n l s, of "[Use, SetInt ''other'' 7]"]
  have "fst (invoke_all [Use, SetInt ''other'' 7] (\<lparr>ID = 3\<rparr>, demo_bound)) = \<lparr>ID = 3\<rparr>"
    and "current_program (setInt \<lparr>ID = 3\<rparr> ''other'' 7 demo_bound) = current_program demo_bound"
    and "\<forall>n. n \<noteq> current_program demo_bound \<longrightarrow>
      lookup (setInt \<lparr>ID = 3\<rparr> ''other'' 7 demo_bound) n = lookup demo_bound n"
    and "\<forall>po. lookup demo_bound (current_program demo_bound) = Some (ProgramObj po)
            \<and> 0 \<le> (1::int) \<and> 1 < int (length (pr_uniforms po)) \<longrightarrow>
          lookup (setInt \<lparr>ID = 3\<rparr> ''other'' 7 demo_bound) (current_program demo_bound)
            = Some (ProgramObj (po\<lparr>pr_uniforms :=
                (pr_uniforms po)[nat 1 := (fst (pr_uniforms po ! nat 1), UInt 7)]\<rparr>))"
    by blast+
  then have first: "fst (invoke_all [Use, SetInt ''other'' 7] (\<lparr>ID = 3\<rparr>, demo_bound))
        = \<lparr>ID = 3\<rparr>"
    "current_program (setInt \<lparr>ID = 3\<rparr> ''other'' 7 demo_bound) = 3"
    "lookup (setInt \<lparr>ID = 3\<rparr> ''other'' 7 demo_bound) 6 = lookup demo_bound 6"
    "lookup (setInt \<lparr>ID = 3\<rparr> ''other'' 7 demo_bound) 3
       = Some (ProgramObj \<lparr>pr_attached = [1, 2], pr_link_status = True, pr_info_log = [],
           pr_uniforms = [(''u_name'', UInt 0), (''other'', UInt 7)]\<rparr>)"
    using demo_bound_programs(2) by (simp_all add: demo_bound_programs(1))
  have n2: "uniform_write (SetFloat ''missing'' 2) = Some (''missing'', UFloat 2)"
    by simp
  have s2: "setFloat \<lparr>ID = 3\<rparr> ''missing'' 2 demo_bound
      = snd (invoke (SetFloat ''missing'' 2) (\<lparr>ID = 3\<rparr>, demo_bound))"
    by simp
  from member_calls_frame [OF n2 refl s2]
  have "c_str ''missing'' \<notin> set (active_uniforms demo_bound (ID \<lparr>ID = 3\<rparr>)) \<longrightarrow>
      objects (setFloat \<lparr>ID = 3\<rparr> ''missing'' 2 demo_bound) = objects demo_bound"
    by blast
  then have second: "objects (setFloat \<lparr>ID = 3\<rparr> ''missing'' 2 demo_bound) = objects demo_bound"
    using a(2) by simp
  show ?thesis
    using l a first second by (simp add: demo_bound_programs(1))
qed

text \<open>
  C8 as it is stated fails: the write goes to the bound program, not to the program \<open>ID\<close>.
  Two programs are built from the valid files, with handles 3 and 6, and the first is
  bound. \<^verbatim>\<open>setInt("other", 7)\<close> on the \<^verbatim>\<open>Shader\<close> whose \<open>ID\<close> is 6 then changes the uniform of
  program 3 and leaves program 6 as it was.
\<close>

theorem setInt_on_other_shader_counterexample:
  "Shader demo_driver ''v.vs'' ''f.fs'' demo_start = Inr (\<lparr>ID = 3\<rparr>, demo_built)
   \<and> Shader demo_driver ''v.vs'' ''f.fs'' demo_built = Inr (\<lparr>ID = 6\<rparr>, demo_built_twice)
   \<and> demo_bound = use \<lparr>ID = 3\<rparr> demo_built_twice
   \<and> current_program demo_bound = 3
   \<and> glGetUniform 3 1 demo_bound = Some (UInt 0)
   \<and> glGetUniform 6 1 demo_bound = Some (UInt 0)
   \<and> fst (glGetUniformLocation 6 ''other'' demo_bound) = 1
   \<and> glGetUniform 3 1 (setInt \<lparr>ID = 6\<rparr> ''other'' 7 demo_bound) = Some (UInt 7)
   \<and> glGetUniform 6 1 (setInt \<lparr>ID = 6\<rparr> ''other'' 7 demo_bound) = Some (UInt 0)
   \<and> lookup (setInt \<lparr>ID = 6\<rparr> ''other'' 7 demo_bound) 3 \<noteq> lookup demo_bound 3"
proof -
  have l: "fst (glGetUniformLocation 6 ''other'' demo_bound) = 1"
    using demo_bound_programs(3) by (simp add: glGetUniformLocation_def)
  have g: "glGetUniform 3 1 demo_bound = Some (UInt 0)"
    "glGetUniform 6 1 demo_bound = Some (UInt 0)"
    using demo_bound_programs(2,3) by (simp_all add: glGetUniform_def)
  have h: "lookup (write_uniform 1 (UInt 7) demo_bound) 3
      = Some (ProgramObj \<lparr>pr_attached = [1, 2], pr_link_status = True,
          pr_info_log = [], pr_uniforms = [(''u_name'', UInt 0), (''other'', UInt 7)]\<rparr>)"
    using write_uniform_here [of demo_bound _ 1 "UInt 7"] demo_bound_programs(1,2) by simp
  have e: "lookup (write_uniform 1 (UInt 7) demo_bound) 6 = lookup demo_bound 6"
    using write_uniform_elsewhere [of 6 demo_bound 1 "UInt 7"] demo_bound_programs(1) by simp
  have "glGetUniform 3 1 (setInt \<lparr>ID = 6\<rparr> ''other'' 7 demo_bound) = Some (UInt 7)"
    using h by (simp add: setInt_eq l glGetUniform_def)
  moreover have "glGetUniform 6 1 (setInt \<lparr>ID = 6\<rparr> ''other'' 7 demo_bound) = Some (UInt 0)"
    using e demo_bound_programs(3) by (simp add: setInt_eq l glGetUniform_def)
  moreover have "lookup (setInt \<lparr>ID = 6\<rparr> ''other'' 7 demo_bound) 3 \<noteq> lookup demo_bound 3"
    using h demo_bound_programs(2) by (simp add: setInt_eq l)
  ultimately show ?thesis
    using l g by (simp add: demo_first_build demo_second_build demo_bound_def [symmetric]
        demo_bound_programs(1))
qed

end
